theory Spec2Isabelle
  imports Complex_Main "HOL-Library.Log_Nat"
begin

section \<open>The real-time notification channel (class WebSocketClient)\<close>

text \<open>
  The class keeps its own fields (the owned transport, the options, the retry counter, two
  timer handles and two flags) and talks to three platform services: the WebSocket objects
  it creates, the timer registry (setTimeout, setInterval and their clear functions) and the
  EventEmitter it extends. The model is one record: the fields of the class, followed by
  the part of the platform that the class can observe or change.

  Modelling boundary. JSON.parse, JSON.stringify, Math.pow, the WebSocket objects and the
  timers are platform code: an inbound frame arrives as the result of JSON.parse (None when
  it throws), an outbound frame is recorded as the value handed to JSON.stringify, and
  Math.pow is whatever the engine computes. The reconnect delay is a JavaScript number: the
  product is rounded to the nearest double as IEEE 754 prescribes. The emitter records every
  emit in order; listeners are assumed not to throw and not to call back into the client,
  and an 'error' listener is assumed to be registered, so emit itself never throws.
\<close>

subsection \<open>JavaScript numbers\<close>

text \<open>
  A number is NaN, one of the two infinities, or a finite value; the sign of zero is not
  kept. The finite doubles are the rationals m * 2^e with an integer m below 2^53 in
  absolute value and e at least -1074, below 2^1024 in absolute value.
\<close>

datatype jsnumber = NaN | PosInf | NegInf | Num rat

text \<open>The integer k with 2^k \<le> a < 2^(k+1), for a positive a.\<close>

definition floorLog2 :: "rat \<Rightarrow> int" where
  "floorLog2 a =
     (let (p, q) = quotient_of a; k = bitlen p - bitlen q
      in if a < 2 powi k then k - 1 else k)"

definition roundHalfEven :: "rat \<Rightarrow> int" where
  "roundHalfEven y =
     (let f = \<lfloor>y\<rfloor>; r = y - of_int f
      in if r < 1 / 2 then f else if 1 / 2 < r then f + 1 else if even f then f else f + 1)"

text \<open>
  Rounding an exact result to the nearest double, ties to even: the spacing of the doubles
  around a is 2^e with e = floorLog2 a - 52, and never less than 2^(-1074) (the subnormal
  range); a result that rounds to 2^1024 or beyond is an infinity.
\<close>

definition roundDouble :: "rat \<Rightarrow> jsnumber" where
  "roundDouble x =
     (if x = 0 then Num 0
      else
        (let a = \<bar>x\<bar>;
             e = max (floorLog2 a - 52) (- 1074);
             v = of_int (roundHalfEven (a / 2 powi e)) * 2 powi e
         in if 2 powi 1024 \<le> v then (if x < 0 then NegInf else PosInf)
            else Num (if x < 0 then - v else v)))"

text \<open>The operator \<open>*\<close> on numbers.\<close>

fun jsTimes :: "jsnumber \<Rightarrow> jsnumber \<Rightarrow> jsnumber" where
  "jsTimes NaN y = NaN"
| "jsTimes x NaN = NaN"
| "jsTimes (Num a) (Num b) = roundDouble (a * b)"
| "jsTimes (Num a) PosInf = (if a = 0 then NaN else if 0 < a then PosInf else NegInf)"
| "jsTimes (Num a) NegInf = (if a = 0 then NaN else if 0 < a then NegInf else PosInf)"
| "jsTimes PosInf (Num b) = (if b = 0 then NaN else if 0 < b then PosInf else NegInf)"
| "jsTimes NegInf (Num b) = (if b = 0 then NaN else if 0 < b then NegInf else PosInf)"
| "jsTimes PosInf PosInf = PosInf"
| "jsTimes PosInf NegInf = NegInf"
| "jsTimes NegInf PosInf = NegInf"
| "jsTimes NegInf NegInf = PosInf"

text \<open>A stored numeric option read as a number: undefined becomes NaN.\<close>

fun toNumber :: "jsnumber option \<Rightarrow> jsnumber" where
  "toNumber None = NaN"
| "toNumber (Some d) = d"

subsection \<open>Values on the wire\<close>

datatype jsval =
    JNull
  | JBool bool
  | JNum rat
  | JStr string
  | JArr "jsval list"
  | JObj "(string \<times> jsval) list"

text \<open>
  Reading a property of a parsed value that is not null: None stands for undefined. Only
  the keys type and server_time are ever read, which no string, number, boolean or array
  defines. Reading a property of null throws; the callers below test for null first.
\<close>

fun getProp :: "jsval \<Rightarrow> string \<Rightarrow> jsval option" where
  "getProp (JObj kvs) k = map_of kvs k"
| "getProp v k = None"

text \<open>An object literal as JSON.stringify sees it: a property whose value is undefined is left out.\<close>

fun objectLit :: "(string \<times> jsval option) list \<Rightarrow> (string \<times> jsval) list" where
  "objectLit [] = []"
| "objectLit ((k, None) # kvs) = objectLit kvs"
| "objectLit ((k, Some v) # kvs) = (k, v) # objectLit kvs"

record WebSocketFilters =
  message_types :: "string list option"
  account_ids :: "string list option"

definition filtersJson :: "WebSocketFilters \<Rightarrow> jsval" where
  "filtersJson f = JObj (objectLit
     [(''message_types'', map_option (\<lambda>xs. JArr (map JStr xs)) (message_types f)),
      (''account_ids'', map_option (\<lambda>xs. JArr (map JStr xs)) (account_ids f))])"

subsection \<open>Options\<close>

text \<open>
  An optional property of the options object a caller passes: left out, present with the
  value undefined, or given. The base delay is any JavaScript number; the attempt cap is
  taken to be an integer (a cap that is not an integer, NaN or an infinity is outside the
  model).
\<close>

datatype 'a optional = Absent | Undefined | Given 'a

record ConnectionOptions =
  token :: string
  filters :: "WebSocketFilters option"
  reconnectAttempts :: "int optional"
  reconnectDelay :: "jsnumber optional"

text \<open>
  The options as the constructor stores them (None is undefined), and the spread
  \<open>{ reconnectAttempts: 5, reconnectDelay: 5000, ...options }\<close>: a property the caller left
  out keeps the default, a property that is present replaces it, also when its value is
  undefined.
\<close>

record StoredOptions =
  o_token :: string
  o_filters :: "WebSocketFilters option"
  o_reconnectAttempts :: "int option"
  o_reconnectDelay :: "jsnumber option"

fun spread :: "'a \<Rightarrow> 'a optional \<Rightarrow> 'a option" where
  "spread dflt Absent = Some dflt"
| "spread dflt Undefined = None"
| "spread dflt (Given v) = Some v"

subsection \<open>Platform objects and notifications\<close>

datatype readyState = CONNECTING | OPEN | CLOSING | CLOSED

text \<open>A transport instance: its ready state and the two connection parameters of its URL.\<close>

record WebSocket =
  ready :: readyState
  url_token :: string
  url_filters :: "WebSocketFilters option"

datatype failure = NotConnected | ParseFailed | ConstructorThrew | TransportError

datatype payload =
    NoArg
  | Msg jsval
  | Err failure
  | CloseEvent int
  | Reconnecting nat "int option" jsnumber

record state =
  ws :: "nat option"
  options :: StoredOptions
  reconnectCount :: nat
  pingInterval :: "nat option"
  reconnectTimeout :: "nat option"
  isConnecting :: bool
  shouldReconnect :: bool
  sockets :: "WebSocket list"
  intervals :: "nat set"
  timeouts :: "nat \<rightharpoonup> jsnumber"
  nextTimer :: nat
  ctorThrows :: bool
  mathPow :: "nat \<Rightarrow> jsnumber"
  emitted :: "(string \<times> payload) list"
  sent :: "(nat \<times> jsval) list"
  closeCalls :: "(nat \<times> int \<times> string) list"

text \<open>
  The fields from sockets on are the platform: every transport ever created (a transport is
  named by its position), the live interval and timeout timers (a timeout with its delay),
  the next fresh timer handle (handles start at 1, so a handle is truthy), whether the
  WebSocket constructor throws in this deployment (it depends only on the configured base
  URL), the engine's \<open>Math.pow(1.5, k)\<close> as a function of k (its accuracy is left to the
  engine), and three logs: the notifications emitted, the frames sent with the transport
  that carried them, and the close requests.
\<close>

definition WebSocketClient :: "ConnectionOptions \<Rightarrow> bool \<Rightarrow> (nat \<Rightarrow> jsnumber) \<Rightarrow> state" where
  "WebSocketClient opts throws pw =
     \<lparr> ws = None,
       options = \<lparr> o_token = token opts,
                   o_filters = filters opts,
                   o_reconnectAttempts = spread 5 (reconnectAttempts opts),
                   o_reconnectDelay = spread (Num 5000) (reconnectDelay opts) \<rparr>,
       reconnectCount = 0,
       pingInterval = None,
       reconnectTimeout = None,
       isConnecting = False,
       shouldReconnect = True,
       sockets = [],
       intervals = {},
       timeouts = Map.empty,
       nextTimer = 1,
       ctorThrows = throws,
       mathPow = pw,
       emitted = [],
       sent = [],
       closeCalls = [] \<rparr>"

definition emit :: "string \<Rightarrow> payload \<Rightarrow> state \<Rightarrow> state" where
  "emit name arg s = s\<lparr>emitted := emitted s @ [(name, arg)]\<rparr>"

text \<open>The test \<open>this.ws?.readyState === WebSocket.OPEN\<close>.\<close>

definition wsIsOpen :: "state \<Rightarrow> bool" where
  "wsIsOpen s =
     (case ws s of
        None \<Rightarrow> False
      | Some i \<Rightarrow> i < length (sockets s) \<and> ready (sockets s ! i) = OPEN)"

definition setReady :: "nat \<Rightarrow> readyState \<Rightarrow> state \<Rightarrow> state" where
  "setReady i r s = s\<lparr>sockets := (sockets s)[i := (sockets s ! i)\<lparr>ready := r\<rparr>]\<rparr>"

text \<open>The platform's close method: a transport that is connecting or open starts closing.\<close>

definition wsClose :: "nat \<Rightarrow> int \<Rightarrow> string \<Rightarrow> state \<Rightarrow> state" where
  "wsClose i code reason s =
     (let s1 = s\<lparr>closeCalls := closeCalls s @ [(i, code, reason)]\<rparr>
      in if i < length (sockets s1) \<and> ready (sockets s1 ! i) \<in> {CONNECTING, OPEN}
         then setReady i CLOSING s1 else s1)"

subsection \<open>The methods of the class\<close>

definition send :: "(string \<times> jsval option) list \<Rightarrow> state \<Rightarrow> state" where
  "send message s =
     (if wsIsOpen s
      then (case ws s of
              Some i \<Rightarrow> s\<lparr>sent := sent s @ [(i, JObj (objectLit message))]\<rparr>
            | None \<Rightarrow> s)
      else emit ''error'' (Err NotConnected) s)"

definition updateFilters :: "WebSocketFilters \<Rightarrow> state \<Rightarrow> state" where
  "updateFilters f s =
     send [(''type'', Some (JStr ''subscribe'')), (''filters'', Some (filtersJson f))]
       (s\<lparr>options := (options s)\<lparr>o_filters := Some f\<rparr>\<rparr>)"

definition cleanup :: "state \<Rightarrow> state" where
  "cleanup s =
     (let s1 = (case pingInterval s of
                  Some h \<Rightarrow> s\<lparr>intervals := intervals s - {h}, pingInterval := None\<rparr>
                | None \<Rightarrow> s)
      in case reconnectTimeout s1 of
           Some h \<Rightarrow> s1\<lparr>timeouts := (timeouts s1)(h := None), reconnectTimeout := None\<rparr>
         | None \<Rightarrow> s1)"

definition scheduleReconnect :: "state \<Rightarrow> state" where
  "scheduleReconnect s =
     (if \<not> shouldReconnect s \<or>
         (case o_reconnectAttempts (options s) of
            None \<Rightarrow> False
          | Some a \<Rightarrow> a \<noteq> 0 \<and> int (reconnectCount s) \<ge> a)
      then emit ''reconnectFailed'' NoArg s
      else
        (let s1 = s\<lparr>reconnectCount := reconnectCount s + 1\<rparr>;
             delay = jsTimes (toNumber (o_reconnectDelay (options s1)))
                       (mathPow s1 (reconnectCount s1 - 1));
             s2 = emit ''reconnecting''
                    (Reconnecting (reconnectCount s1) (o_reconnectAttempts (options s1)) delay) s1;
             h = nextTimer s2
         in s2\<lparr>timeouts := (timeouts s2)(h \<mapsto> delay),
               nextTimer := h + 1,
               reconnectTimeout := Some h\<rparr>))"

definition connect :: "state \<Rightarrow> state" where
  "connect s =
     (if wsIsOpen s \<or> isConnecting s then s
      else
        (let s1 = s\<lparr>isConnecting := True\<rparr>
         in if ctorThrows s1
            then scheduleReconnect (emit ''error'' (Err ConstructorThrew) (s1\<lparr>isConnecting := False\<rparr>))
            else s1\<lparr>sockets := sockets s1 @
                       [\<lparr> ready = CONNECTING,
                          url_token = o_token (options s1),
                          url_filters = o_filters (options s1) \<rparr>],
                    ws := Some (length (sockets s1))\<rparr>))"

definition disconnect :: "state \<Rightarrow> state" where
  "disconnect s =
     (let s1 = cleanup (s\<lparr>shouldReconnect := False\<rparr>)
      in case ws s1 of
           Some i \<Rightarrow> wsClose i 1000 ''Client disconnect'' s1
         | None \<Rightarrow> s1)"

definition startPingInterval :: "state \<Rightarrow> state" where
  "startPingInterval s =
     (let h = nextTimer s
      in s\<lparr>intervals := insert h (intervals s), nextTimer := h + 1, pingInterval := Some h\<rparr>)"

text \<open>The interval's callback; \<open>now\<close> is the clock reading \<open>new Date().toISOString()\<close>.\<close>

definition pingTick :: "string \<Rightarrow> state \<Rightarrow> state" where
  "pingTick now s =
     (if wsIsOpen s
      then send [(''type'', Some (JStr ''ping'')), (''client_time'', Some (JStr now))] s
      else s)"

subsection \<open>The transport callbacks installed by setupEventListeners\<close>

definition onopen :: "state \<Rightarrow> state" where
  "onopen s =
     startPingInterval (emit ''connected'' NoArg (s\<lparr>isConnecting := False, reconnectCount := 0\<rparr>))"

text \<open>The switch of handleMessage over \<open>message.type\<close> (strict equality with each case label).\<close>

definition dispatch :: "jsval option \<Rightarrow> jsval \<Rightarrow> state \<Rightarrow> state" where
  "dispatch t message s =
     (if t = Some (JStr ''ping'')
        then send [(''type'', Some (JStr ''pong'')),
                   (''server_time'', getProp message ''server_time'')] s
      else if t = Some (JStr ''pong'') then s
      else if t = Some (JStr ''cost_update'') then emit ''costUpdate'' (Msg message) s
      else if t = Some (JStr ''waste_detected'') then emit ''wasteDetected'' (Msg message) s
      else if t = Some (JStr ''recommendation_ready'') then emit ''recommendationReady'' (Msg message) s
      else if t = Some (JStr ''job_status'') then emit ''jobStatus'' (Msg message) s
      else if t = Some (JStr ''account_status'') then emit ''accountStatus'' (Msg message) s
      else if t = Some (JStr ''error'') then emit ''serverError'' (Msg message) s
      else emit ''message'' (Msg message) s)"

text \<open>handleMessage: None when reading \<open>message.type\<close> throws, which is before any effect.\<close>

definition handleMessage :: "jsval \<Rightarrow> state \<Rightarrow> state option" where
  "handleMessage message s =
     (if message = JNull then None
      else Some (emit ''rawMessage'' (Msg message) (dispatch (getProp message ''type'') message s)))"

text \<open>onmessage: \<open>parsed\<close> is the outcome of \<open>JSON.parse(event.data)\<close>, None when it throws.\<close>

definition onmessage :: "jsval option \<Rightarrow> state \<Rightarrow> state" where
  "onmessage parsed s =
     (case parsed of
        None \<Rightarrow> emit ''error'' (Err ParseFailed) s
      | Some message \<Rightarrow>
          (case handleMessage message s of
             None \<Rightarrow> emit ''error'' (Err ParseFailed) s
           | Some s' \<Rightarrow> s'))"

definition onclose :: "int \<Rightarrow> state \<Rightarrow> state" where
  "onclose code s =
     (let s1 = cleanup (s\<lparr>isConnecting := False\<rparr>)
      in if code \<noteq> 1000
         then (let s2 = emit ''disconnected'' (CloseEvent code) s1
               in if shouldReconnect s2 then scheduleReconnect s2 else s2)
         else emit ''disconnected'' (CloseEvent code) s1)"

definition onerror :: "state \<Rightarrow> state" where
  "onerror s = emit ''error'' (Err TransportError) (s\<lparr>isConnecting := False\<rparr>)"

subsection \<open>The getter connectionState\<close>

text \<open>
  The ConnectionState a caller observes is derived from the owned transport's ready state;
  the last case stands for a ready state outside the four known values.
\<close>

definition connectionState :: "state \<Rightarrow> string" where
  "connectionState s =
     (case ws s of
        None \<Rightarrow> ''disconnected''
      | Some i \<Rightarrow>
          (if i < length (sockets s)
           then (case ready (sockets s ! i) of
                   CONNECTING \<Rightarrow> ''connecting''
                 | OPEN \<Rightarrow> ''connected''
                 | CLOSING \<Rightarrow> ''closing''
                 | CLOSED \<Rightarrow> ''disconnected'')
           else ''unknown''))"

subsection \<open>One turn of the event loop\<close>

text \<open>
  A turn is a call by the application, a callback of some transport the client has created
  (every one of them carries the four callbacks, which close over the client and not over
  the transport), or a timer that fires. The platform sets the ready state before it runs
  onopen and onclose, and reports a failed connection with readyState already CLOSED. A
  callback of a transport that was never created and a timer that is not live cannot happen
  and leave the state as it is. Nothing else is asked of the order of the turns, so what
  holds of every run here holds of every run the platform can produce.
\<close>

datatype event =
    Connect
  | Disconnect
  | Send "(string \<times> jsval option) list"
  | UpdateFilters WebSocketFilters
  | WsOpen nat
  | WsMessage nat "jsval option"
  | WsClose nat int
  | WsError nat
  | PingTick nat string
  | ReconnectFire nat

fun step :: "event \<Rightarrow> state \<Rightarrow> state" where
  "step Connect s = connect s"
| "step Disconnect s = disconnect s"
| "step (Send m) s = send m s"
| "step (UpdateFilters f) s = updateFilters f s"
| "step (WsOpen i) s = (if i < length (sockets s) then onopen (setReady i OPEN s) else s)"
| "step (WsMessage i parsed) s = (if i < length (sockets s) then onmessage parsed s else s)"
| "step (WsClose i code) s = (if i < length (sockets s) then onclose code (setReady i CLOSED s) else s)"
| "step (WsError i) s = (if i < length (sockets s) then onerror (setReady i CLOSED s) else s)"
| "step (PingTick h now) s = (if h \<in> intervals s then pingTick now s else s)"
| "step (ReconnectFire h) s =
     (if h \<in> dom (timeouts s) then connect (s\<lparr>timeouts := (timeouts s)(h := None)\<rparr>) else s)"

fun run :: "event list \<Rightarrow> state \<Rightarrow> state" where
  "run [] s = s"
| "run (e # es) s = run es (step e s)"

subsection \<open>Consecutive failures, as a test drives them\<close>

text \<open>
  One failed round: the pending reconnect timer (if the handle held is still live) elapses,
  which calls connect, and then the owned transport closes with the given code. A list of
  close codes is a run of consecutive closures with no successful open in between.
\<close>

definition timerElapses :: "state \<Rightarrow> state" where
  "timerElapses s =
     (case reconnectTimeout s of
        Some h \<Rightarrow> step (ReconnectFire h) s
      | None \<Rightarrow> s)"

definition transportCloses :: "int \<Rightarrow> state \<Rightarrow> state" where
  "transportCloses code s =
     (case ws s of
        Some i \<Rightarrow> step (WsClose i code) s
      | None \<Rightarrow> s)"

fun closures :: "int list \<Rightarrow> state \<Rightarrow> state" where
  "closures [] s = s"
| "closures (code # codes) s = closures codes (transportCloses code (timerElapses s))"

text \<open>How often a notification was emitted on a channel.\<close>

definition emissions :: "string \<Rightarrow> state \<Rightarrow> nat" where
  "emissions name s = length (filter (\<lambda>e. fst e = name) (emitted s))"

subsection \<open>Sample inputs\<close>

text \<open>
  Options with the two defaults, some messages, and a few channels reached from a new one:
  connecting, open, reopened after a disconnect (the first transport still closing), with a
  reconnect pending after an abnormal closure, and open with the cap set to 0 and to 30.
\<close>

definition sampleOptions :: ConnectionOptions where
  "sampleOptions =
     \<lparr> token = ''secret'', filters = None, reconnectAttempts = Absent, reconnectDelay = Absent \<rparr>"

text \<open>An engine whose Math.pow is correctly rounded.\<close>

definition roundedPow :: "nat \<Rightarrow> jsnumber" where
  "roundedPow k = roundDouble ((3 / 2) ^ k)"

definition sampleFilters :: WebSocketFilters where
  "sampleFilters = \<lparr> message_types = Some [''cost_update''], account_ids = None \<rparr>"

definition pingMessage :: jsval where
  "pingMessage = JObj [(''type'', JStr ''ping''), (''server_time'', JStr ''12:00:00'')]"

definition pongMessage :: jsval where
  "pongMessage = JObj [(''type'', JStr ''pong''), (''timestamp'', JStr ''12:00:01'')]"

definition costUpdateMessage :: jsval where
  "costUpdateMessage = JObj [(''type'', JStr ''cost_update''), (''account_id'', JStr ''a1'')]"

definition helloMessage :: jsval where
  "helloMessage = JObj [(''type'', JStr ''hello'')]"

definition freshChannel :: state where
  "freshChannel = WebSocketClient sampleOptions False roundedPow"

definition openChannel :: state where
  "openChannel = run [Connect, WsOpen 0] freshChannel"

definition connecting :: state where
  "connecting = step Connect freshChannel"

definition reopened :: state where
  "reopened = run [Connect, WsOpen 0, Disconnect, Connect, WsOpen 1] freshChannel"

definition pendingReconnect :: state where
  "pendingReconnect = run [Connect, WsOpen 0, WsClose 0 1006] freshChannel"

definition uncapped :: state where
  "uncapped =
     run [Connect, WsOpen 0]
       (WebSocketClient (sampleOptions\<lparr>reconnectAttempts := Given 0\<rparr>) False roundedPow)"


subsection \<open>Conditions on states\<close>

text \<open>The condition under which scheduleReconnect gives up instead of scheduling.\<close>

definition givesUp :: "state \<Rightarrow> bool" where
  "givesUp s =
     (\<not> shouldReconnect s \<or>
      (case o_reconnectAttempts (options s) of
         None \<Rightarrow> False
       | Some a \<Rightarrow> a \<noteq> 0 \<and> int (reconnectCount s) \<ge> a))"

text \<open>
  Every live timeout is the one whose handle the client holds. Where the constructor
  throws, connect can schedule a second timeout over a pending one, and the condition is
  left open.
\<close>

definition noStrayTimeout :: "state \<Rightarrow> bool" where
  "noStrayTimeout s = (ctorThrows s \<or> dom (timeouts s) \<subseteq> set_option (reconnectTimeout s))"

text \<open>
  A later state reached from an earlier one without scheduling a reconnect: no timeout was
  added, none is held that was not held, no reconnecting notification was emitted, the cap
  is as it was, and the flag was not set again; while the flag is set the counter is as it
  was.
\<close>

definition quiet :: "state \<Rightarrow> state \<Rightarrow> bool" where
  "quiet s s' =
     ((shouldReconnect s' \<longrightarrow> shouldReconnect s \<and> reconnectCount s' = reconnectCount s) \<and>
      o_reconnectAttempts (options s') = o_reconnectAttempts (options s) \<and>
      dom (timeouts s') \<subseteq> dom (timeouts s) \<and>
      (reconnectTimeout s = None \<longrightarrow> reconnectTimeout s' = None) \<and>
      emissions ''reconnecting'' s' = emissions ''reconnecting'' s)"

text \<open>
  After disconnect: the flag is unset and, unless the constructor throws, no timeout is live.
\<close>

definition inert :: "state \<Rightarrow> bool" where
  "inert s = (\<not> shouldReconnect s \<and> (ctorThrows s \<or> dom (timeouts s) = {}))"

text \<open>
  A channel that will retry: the flag is set, the constructor does not throw, the channel
  owns a transport, and the counter stands at k.
\<close>

definition retrying :: "nat \<Rightarrow> state \<Rightarrow> bool" where
  "retrying k s =
     (shouldReconnect s \<and> \<not> ctorThrows s \<and> reconnectCount s = k \<and>
      (case ws s of Some i \<Rightarrow> i < length (sockets s) | None \<Rightarrow> False))"

text \<open>The cap is off (0 or undefined) or leaves room for attempt number k.\<close>

definition capAllows :: "nat \<Rightarrow> state \<Rightarrow> bool" where
  "capAllows k s =
     (case o_reconnectAttempts (options s) of
        None \<Rightarrow> True
      | Some a \<Rightarrow> a = 0 \<or> int k \<le> a)"

text \<open>The delay expression of scheduleReconnect for the attempt after k failures.\<close>

abbreviation delayAt :: "state \<Rightarrow> nat \<Rightarrow> jsnumber" where
  "delayAt s k \<equiv> jsTimes (toNumber (o_reconnectDelay (options s))) (mathPow s k)"

section \<open>Properties\<close>

subsection \<open>Rounding to a double\<close>

lemma roundHalfEven_of_int [simp]: "roundHalfEven (of_int n) = n"
  by (simp add: roundHalfEven_def)

lemma bitlen_lower: "0 < p \<Longrightarrow> (2::rat) powi (bitlen p - 1) \<le> of_int p"
proof -
  assume p: "0 < p"
  then have b: "1 \<le> bitlen p" by (auto simp: bitlen_alt_def)
  have "2 ^ nat (bitlen p - 1) \<le> p" using bitlen_bounds [OF p] by simp
  then have "(of_int (2 ^ nat (bitlen p - 1)) :: rat) \<le> of_int p"
    by (simp only: of_int_le_iff)
  then show ?thesis using b by (simp add: power_int_def)
qed

lemma bitlen_upper: "0 < q \<Longrightarrow> of_int q < (2::rat) powi (bitlen q)"
proof -
  assume q: "0 < q"
  have "q < 2 ^ nat (bitlen q)" using bitlen_bounds [OF q] by simp
  then have "(of_int q :: rat) < of_int (2 ^ nat (bitlen q))"
    by (simp only: of_int_less_iff)
  then show ?thesis using bitlen_nonneg [of q] by (simp add: power_int_def)
qed

lemma floorLog2_lower:
  assumes "0 < a"
  shows "2 powi (floorLog2 a) \<le> a"
proof -
  obtain p q where pq: "quotient_of a = (p, q)" by (cases "quotient_of a")
  have q: "0 < q" using quotient_of_denom_pos [OF pq] .
  have a: "a = of_int p / of_int q" using quotient_of_div [OF pq] .
  have p: "0 < p" using assms q unfolding a by (simp add: zero_less_divide_iff)
  let ?k = "bitlen p - bitlen q"
  show ?thesis
  proof (cases "a < 2 powi ?k")
    case False
    then show ?thesis by (simp add: floorLog2_def pq)
  next
    case True
    have "(2::rat) powi (?k - 1) = 2 powi (bitlen p - 1) / 2 powi (bitlen q)"
      by (simp add: power_int_diff)
    also have "\<dots> \<le> of_int p / 2 powi (bitlen q)"
      using bitlen_lower [OF p] by (simp add: divide_right_mono)
    also have "\<dots> \<le> of_int p / of_int q"
      using bitlen_upper [OF q] p q by (simp add: frac_le)
    finally have "(2::rat) powi (?k - 1) \<le> a" unfolding a .
    moreover have "floorLog2 a = ?k - 1" using True by (simp add: floorLog2_def pq)
    ultimately show ?thesis by simp
  qed
qed



lemma two_powi_less_cancel: "(2::rat) powi i < 2 powi j \<Longrightarrow> i < j"
proof (rule ccontr)
  assume l: "(2::rat) powi i < 2 powi j" and "\<not> i < j"
  then have "j \<le> i" by simp
  then have "(2::rat) powi j \<le> 2 powi i" by (intro power_int_increasing) simp_all
  with l show False by simp
qed

lemma roundDouble_exact_nonzero:
  assumes x: "x = of_int m * 2 powi e" and m: "m \<noteq> 0" "\<bar>m\<bar> < 2 ^ 53"
    and e: "- 1074 \<le> e" and r: "\<bar>x\<bar> < 2 powi 1024"
  shows "roundDouble x = Num x"
proof -
  let ?a = "\<bar>x\<bar>"
  have a: "?a = of_int \<bar>m\<bar> * 2 powi e"
    unfolding x by (simp add: abs_mult)
  have pos: "0 < ?a" using m(1) unfolding a by simp
  have "(of_int \<bar>m\<bar> :: rat) < of_int (2 ^ 53)"
    using m(2) by (simp only: of_int_less_iff)
  then have "?a < 2 powi 53 * 2 powi e"
    unfolding a by (simp add: mult_strict_right_mono)
  then have "?a < 2 powi (53 + e)" by (simp add: power_int_add)
  with floorLog2_lower [OF pos] have "(2::rat) powi (floorLog2 ?a) < 2 powi (53 + e)"
    by simp
  then have f: "floorLog2 ?a < 53 + e" by (rule two_powi_less_cancel)
  define E where "E = max (floorLog2 ?a - 52) (- 1074)"
  have E: "E \<le> e" using f e by (simp add: E_def)
  have "?a / 2 powi E = of_int \<bar>m\<bar> * 2 powi (e - E)"
    unfolding a by (simp add: power_int_diff)
  also have "\<dots> = of_int (\<bar>m\<bar> * 2 ^ nat (e - E))"
    using E by (simp add: power_int_def)
  finally have q: "?a / 2 powi E = of_int (\<bar>m\<bar> * 2 ^ nat (e - E))" .
  have v: "of_int (roundHalfEven (?a / 2 powi E)) * 2 powi E = ?a"
    unfolding q roundHalfEven_of_int unfolding q [symmetric] by simp
  have nz: "x \<noteq> 0" using pos by simp
  have "roundDouble x =
      (if 2 powi 1024 \<le> ?a then (if x < 0 then NegInf else PosInf)
       else Num (if x < 0 then - ?a else ?a))"
    using nz unfolding roundDouble_def Let_def E_def [symmetric] v by simp
  also have "\<dots> = Num x"
    using r by (simp only: not_le [symmetric] if_False) simp
  finally show ?thesis .
qed




lemma roundDouble_exact:
  assumes "x = of_int m * 2 powi e" and "\<bar>m\<bar> < 2 ^ 53"
    and "- 1074 \<le> e" and "\<bar>x\<bar> < 2 powi 1024"
  shows "roundDouble x = Num x"
proof (cases "m = 0")
  case True
  then show ?thesis using assms(1) by (simp add: roundDouble_def)
next
  case False
  from assms(1) False assms(2,3,4) show ?thesis by (rule roundDouble_exact_nonzero)
qed

text \<open>Powers of 1.5 up to the 33rd are doubles; the default delay times such a power is a double up to the 27th.\<close>

lemma three_pow_small: "k \<le> 33 \<Longrightarrow> (3::int) ^ k < 2 ^ 53"
proof -
  assume "k \<le> 33"
  then have "(3::int) ^ k \<le> 3 ^ 33" by (intro power_increasing) simp_all
  also have "\<dots> < 2 ^ 53" by simp
  finally show ?thesis .
qed

lemma roundedPow_exact:
  assumes "k \<le> 33"
  shows "roundedPow k = Num ((3 / 2) ^ k)"
proof -
  have x: "((3 / 2) ^ k :: rat) = of_int (3 ^ k) * 2 powi (- int k)"
    by (simp add: power_divide power_int_minus field_simps)
  have m: "\<bar>(3::int) ^ k\<bar> < 2 ^ 53" using three_pow_small [OF assms] by simp
  have "((3 / 2) ^ k :: rat) \<le> 2 ^ k" by (intro power_mono) simp_all
  also have "\<dots> \<le> 2 ^ 33" using assms by (intro power_increasing) simp_all
  also have "\<dots> < 2 powi 1024" by (simp add: power_int_def)
  finally have r: "\<bar>(3 / 2) ^ k :: rat\<bar> < 2 powi 1024" by simp
  show ?thesis
    unfolding roundedPow_def
    by (rule roundDouble_exact [OF x m _ r]) (use assms in simp_all)
qed

lemma default_delay_exact:
  assumes "k \<le> 27"
  shows "roundDouble (5000 * (3 / 2) ^ k) = Num (5000 * (3 / 2) ^ k)"
proof -
  have x: "(5000 * (3 / 2) ^ k :: rat) = of_int (625 * 3 ^ k) * 2 powi (3 - int k)"
    by (simp add: power_divide power_int_diff field_simps)
  have "(3::int) ^ k \<le> 3 ^ 27" using assms by (intro power_increasing) simp_all
  then have "625 * (3::int) ^ k \<le> 625 * 3 ^ 27" by simp
  also have "\<dots> < 2 ^ 53" by simp
  finally have m: "\<bar>625 * (3::int) ^ k\<bar> < 2 ^ 53" by simp
  have "((3 / 2) ^ k :: rat) \<le> 2 ^ k" by (intro power_mono) simp_all
  also have "\<dots> \<le> 2 ^ 27" using assms by (intro power_increasing) simp_all
  finally have "(5000 * (3 / 2) ^ k :: rat) \<le> 5000 * 2 ^ 27" by simp
  also have "\<dots> < 2 powi 1024" by (simp add: power_int_def)
  finally have r: "\<bar>5000 * (3 / 2) ^ k :: rat\<bar> < 2 powi 1024" by simp
  show ?thesis
    by (rule roundDouble_exact [OF x m _ r]) (use assms in simp_all)
qed


lemma roundedPow_first:
  "roundedPow 0 = Num 1"
  "roundedPow 1 = Num (3 / 2)"
  "roundedPow 2 = Num (9 / 4)"
  "roundedPow 3 = Num (27 / 8)"
  "roundedPow 4 = Num (81 / 16)"
  using roundedPow_exact [of 0] roundedPow_exact [of 1] roundedPow_exact [of 2]
    roundedPow_exact [of 3] roundedPow_exact [of 4]
  by (simp_all add: power_divide)

lemma default_delays:
  "roundDouble 5000 = Num 5000"
  "roundDouble 7500 = Num 7500"
  "roundDouble 11250 = Num 11250"
  "roundDouble 16875 = Num 16875"
  "roundDouble (50625 / 2) = Num (50625 / 2)"
  using default_delay_exact [of 0] default_delay_exact [of 1] default_delay_exact [of 2]
    default_delay_exact [of 3] default_delay_exact [of 4]
  by (simp_all add: power_divide)


subsection \<open>What each method leaves alone\<close>

lemma emit_fields [simp]:
  "shouldReconnect (emit n a s) = shouldReconnect s"
  "ctorThrows (emit n a s) = ctorThrows s"
  "mathPow (emit n a s) = mathPow s"
  "timeouts (emit n a s) = timeouts s"
  "reconnectTimeout (emit n a s) = reconnectTimeout s"
  "reconnectCount (emit n a s) = reconnectCount s"
  "options (emit n a s) = options s"
  "sockets (emit n a s) = sockets s"
  "ws (emit n a s) = ws s"
  "emitted (emit n a s) = emitted s @ [(n, a)]"
  by (simp_all add: emit_def)

lemma setReady_fields [simp]:
  "shouldReconnect (setReady i r s) = shouldReconnect s"
  "ctorThrows (setReady i r s) = ctorThrows s"
  "mathPow (setReady i r s) = mathPow s"
  "timeouts (setReady i r s) = timeouts s"
  "reconnectTimeout (setReady i r s) = reconnectTimeout s"
  "reconnectCount (setReady i r s) = reconnectCount s"
  "options (setReady i r s) = options s"
  "length (sockets (setReady i r s)) = length (sockets s)"
  "ws (setReady i r s) = ws s"
  "pingInterval (setReady i r s) = pingInterval s"
  "emitted (setReady i r s) = emitted s"
  by (simp_all add: setReady_def)

lemma wsClose_fields [simp]:
  "shouldReconnect (wsClose i c r s) = shouldReconnect s"
  "ctorThrows (wsClose i c r s) = ctorThrows s"
  "mathPow (wsClose i c r s) = mathPow s"
  "timeouts (wsClose i c r s) = timeouts s"
  "reconnectTimeout (wsClose i c r s) = reconnectTimeout s"
  "reconnectCount (wsClose i c r s) = reconnectCount s"
  "options (wsClose i c r s) = options s"
  "length (sockets (wsClose i c r s)) = length (sockets s)"
  "ws (wsClose i c r s) = ws s"
  "pingInterval (wsClose i c r s) = pingInterval s"
  "emitted (wsClose i c r s) = emitted s"
  by (simp_all add: wsClose_def Let_def)

lemma send_fields [simp]:
  "shouldReconnect (send m s) = shouldReconnect s"
  "ctorThrows (send m s) = ctorThrows s"
  "mathPow (send m s) = mathPow s"
  "timeouts (send m s) = timeouts s"
  "reconnectTimeout (send m s) = reconnectTimeout s"
  "reconnectCount (send m s) = reconnectCount s"
  "options (send m s) = options s"
  "sockets (send m s) = sockets s"
  "ws (send m s) = ws s"
  "emitted (send m s) = emitted s @ (if wsIsOpen s then [] else [(''error'', Err NotConnected)])"
  by (simp_all add: send_def split: option.split)

lemma wsIsOpen_cong:
  "ws s' = ws s \<Longrightarrow> sockets s' = sockets s \<Longrightarrow> wsIsOpen s' = wsIsOpen s"
  by (simp add: wsIsOpen_def split: option.split)

lemma updateFilters_fields [simp]:
  "shouldReconnect (updateFilters f s) = shouldReconnect s"
  "ctorThrows (updateFilters f s) = ctorThrows s"
  "mathPow (updateFilters f s) = mathPow s"
  "timeouts (updateFilters f s) = timeouts s"
  "reconnectTimeout (updateFilters f s) = reconnectTimeout s"
  "reconnectCount (updateFilters f s) = reconnectCount s"
  "options (updateFilters f s) = (options s)\<lparr>o_filters := Some f\<rparr>"
  "sockets (updateFilters f s) = sockets s"
  "ws (updateFilters f s) = ws s"
  "emitted (updateFilters f s) = emitted s @ (if wsIsOpen s then [] else [(''error'', Err NotConnected)])"
  by (simp_all add: updateFilters_def wsIsOpen_cong [of "s\<lparr>options := x\<rparr>" s for x])

lemma cleanup_fields [simp]:
  "shouldReconnect (cleanup s) = shouldReconnect s"
  "ctorThrows (cleanup s) = ctorThrows s"
  "mathPow (cleanup s) = mathPow s"
  "timeouts (cleanup s) = (case reconnectTimeout s of Some h \<Rightarrow> (timeouts s)(h := None) | None \<Rightarrow> timeouts s)"
  "reconnectTimeout (cleanup s) = None"
  "pingInterval (cleanup s) = None"
  "reconnectCount (cleanup s) = reconnectCount s"
  "options (cleanup s) = options s"
  "sockets (cleanup s) = sockets s"
  "ws (cleanup s) = ws s"
  "emitted (cleanup s) = emitted s"
  by (simp_all add: cleanup_def Let_def split: option.split)

lemma startPingInterval_fields [simp]:
  "shouldReconnect (startPingInterval s) = shouldReconnect s"
  "ctorThrows (startPingInterval s) = ctorThrows s"
  "mathPow (startPingInterval s) = mathPow s"
  "timeouts (startPingInterval s) = timeouts s"
  "reconnectTimeout (startPingInterval s) = reconnectTimeout s"
  "reconnectCount (startPingInterval s) = reconnectCount s"
  "options (startPingInterval s) = options s"
  "sockets (startPingInterval s) = sockets s"
  "ws (startPingInterval s) = ws s"
  "emitted (startPingInterval s) = emitted s"
  by (simp_all add: startPingInterval_def Let_def)

lemma pingTick_fields [simp]:
  "shouldReconnect (pingTick now s) = shouldReconnect s"
  "ctorThrows (pingTick now s) = ctorThrows s"
  "mathPow (pingTick now s) = mathPow s"
  "timeouts (pingTick now s) = timeouts s"
  "reconnectTimeout (pingTick now s) = reconnectTimeout s"
  "reconnectCount (pingTick now s) = reconnectCount s"
  "options (pingTick now s) = options s"
  "sockets (pingTick now s) = sockets s"
  "ws (pingTick now s) = ws s"
  "emitted (pingTick now s) = emitted s"
  by (simp_all add: pingTick_def)

lemma onopen_fields [simp]:
  "shouldReconnect (onopen s) = shouldReconnect s"
  "ctorThrows (onopen s) = ctorThrows s"
  "mathPow (onopen s) = mathPow s"
  "timeouts (onopen s) = timeouts s"
  "reconnectTimeout (onopen s) = reconnectTimeout s"
  "reconnectCount (onopen s) = 0"
  "options (onopen s) = options s"
  "sockets (onopen s) = sockets s"
  "ws (onopen s) = ws s"
  "emitted (onopen s) = emitted s @ [(''connected'', NoArg)]"
  by (simp_all add: onopen_def)

lemma onerror_fields [simp]:
  "shouldReconnect (onerror s) = shouldReconnect s"
  "ctorThrows (onerror s) = ctorThrows s"
  "mathPow (onerror s) = mathPow s"
  "timeouts (onerror s) = timeouts s"
  "reconnectTimeout (onerror s) = reconnectTimeout s"
  "reconnectCount (onerror s) = reconnectCount s"
  "options (onerror s) = options s"
  "sockets (onerror s) = sockets s"
  "ws (onerror s) = ws s"
  "emitted (onerror s) = emitted s @ [(''error'', Err TransportError)]"
  by (simp_all add: onerror_def)


lemma scheduleReconnect_fields [simp]:
  "shouldReconnect (scheduleReconnect s) = shouldReconnect s"
  "ctorThrows (scheduleReconnect s) = ctorThrows s"
  "mathPow (scheduleReconnect s) = mathPow s"
  "options (scheduleReconnect s) = options s"
  "sockets (scheduleReconnect s) = sockets s"
  "ws (scheduleReconnect s) = ws s"
  by (simp_all add: scheduleReconnect_def Let_def)

lemma scheduleReconnect_gives_up:
  "givesUp s \<Longrightarrow> scheduleReconnect s = emit ''reconnectFailed'' NoArg s"
  by (simp add: scheduleReconnect_def givesUp_def)

lemma scheduleReconnect_schedules:
  "\<not> givesUp s \<Longrightarrow>
   scheduleReconnect s =
     s\<lparr>reconnectCount := reconnectCount s + 1,
       emitted := emitted s @
         [(''reconnecting'', Reconnecting (reconnectCount s + 1) (o_reconnectAttempts (options s))
             (jsTimes (toNumber (o_reconnectDelay (options s))) (mathPow s (reconnectCount s))))],
       timeouts := (timeouts s)(nextTimer s \<mapsto>
             jsTimes (toNumber (o_reconnectDelay (options s))) (mathPow s (reconnectCount s))),
       nextTimer := nextTimer s + 1,
       reconnectTimeout := Some (nextTimer s)\<rparr>"
  by (simp add: scheduleReconnect_def givesUp_def Let_def emit_def)

lemma givesUp_iff:
  "givesUp s = (\<not> shouldReconnect s \<or> \<not> capAllows (Suc (reconnectCount s)) s)"
  by (auto simp: givesUp_def capAllows_def split: option.split)

lemma connect_fields [simp]:
  "shouldReconnect (connect s) = shouldReconnect s"
  "ctorThrows (connect s) = ctorThrows s"
  "mathPow (connect s) = mathPow s"
  "options (connect s) = options s"
  by (simp_all add: connect_def Let_def)

lemma connect_no_throw:
  "\<not> ctorThrows s \<Longrightarrow> timeouts (connect s) = timeouts s"
  "\<not> ctorThrows s \<Longrightarrow> reconnectTimeout (connect s) = reconnectTimeout s"
  "\<not> ctorThrows s \<Longrightarrow> reconnectCount (connect s) = reconnectCount s"
  "\<not> ctorThrows s \<Longrightarrow> emitted (connect s) = emitted s"
  by (simp_all add: connect_def Let_def)

lemma connect_throws:
  "ctorThrows s \<Longrightarrow> sockets (connect s) = sockets s"
  "ctorThrows s \<Longrightarrow> ws (connect s) = ws s"
  by (simp_all add: connect_def Let_def)

lemma disconnect_fields [simp]:
  "shouldReconnect (disconnect s) = False"
  "ctorThrows (disconnect s) = ctorThrows s"
  "mathPow (disconnect s) = mathPow s"
  "timeouts (disconnect s) = (case reconnectTimeout s of Some h \<Rightarrow> (timeouts s)(h := None) | None \<Rightarrow> timeouts s)"
  "reconnectTimeout (disconnect s) = None"
  "pingInterval (disconnect s) = None"
  "reconnectCount (disconnect s) = reconnectCount s"
  "options (disconnect s) = options s"
  "length (sockets (disconnect s)) = length (sockets s)"
  "ws (disconnect s) = ws s"
  "emitted (disconnect s) = emitted s"
  by (simp_all add: disconnect_def Let_def split: option.split)

lemma dispatch_ping:
  "dispatch (Some (JStr ''ping'')) m s =
     send [(''type'', Some (JStr ''pong'')), (''server_time'', getProp m ''server_time'')] s"
  by (simp add: dispatch_def)

lemma dispatch_pong: "dispatch (Some (JStr ''pong'')) m s = s"
  by (simp add: dispatch_def)

lemma dispatch_typed:
  "dispatch (Some (JStr ''cost_update'')) m s = emit ''costUpdate'' (Msg m) s"
  "dispatch (Some (JStr ''waste_detected'')) m s = emit ''wasteDetected'' (Msg m) s"
  "dispatch (Some (JStr ''recommendation_ready'')) m s = emit ''recommendationReady'' (Msg m) s"
  "dispatch (Some (JStr ''job_status'')) m s = emit ''jobStatus'' (Msg m) s"
  "dispatch (Some (JStr ''account_status'')) m s = emit ''accountStatus'' (Msg m) s"
  "dispatch (Some (JStr ''error'')) m s = emit ''serverError'' (Msg m) s"
  by (simp_all add: dispatch_def)

lemma dispatch_default:
  "t \<noteq> Some (JStr ''ping'') \<Longrightarrow> t \<noteq> Some (JStr ''pong'') \<Longrightarrow> t \<noteq> Some (JStr ''cost_update'') \<Longrightarrow>
   t \<noteq> Some (JStr ''waste_detected'') \<Longrightarrow> t \<noteq> Some (JStr ''recommendation_ready'') \<Longrightarrow>
   t \<noteq> Some (JStr ''job_status'') \<Longrightarrow> t \<noteq> Some (JStr ''account_status'') \<Longrightarrow> t \<noteq> Some (JStr ''error'') \<Longrightarrow>
   dispatch t m s = emit ''message'' (Msg m) s"
  by (simp add: dispatch_def)

text \<open>Every branch of the switch is a send of the pong, nothing, or one emit of the message.\<close>

lemma dispatch_shape:
  "(\<forall>s. dispatch t m s = send [(''type'', Some (JStr ''pong'')), (''server_time'', getProp m ''server_time'')] s) \<or>
   (\<forall>s. dispatch t m s = s) \<or>
   (\<exists>ch. ch \<noteq> ''reconnecting'' \<and> (\<forall>s. dispatch t m s = emit ch (Msg m) s))"
proof -
  have "t = Some (JStr ''ping'') \<or> t = Some (JStr ''pong'') \<or> t = Some (JStr ''cost_update'') \<or>
        t = Some (JStr ''waste_detected'') \<or> t = Some (JStr ''recommendation_ready'') \<or>
        t = Some (JStr ''job_status'') \<or> t = Some (JStr ''account_status'') \<or> t = Some (JStr ''error'') \<or>
        (t \<noteq> Some (JStr ''ping'') \<and> t \<noteq> Some (JStr ''pong'') \<and> t \<noteq> Some (JStr ''cost_update'') \<and>
         t \<noteq> Some (JStr ''waste_detected'') \<and> t \<noteq> Some (JStr ''recommendation_ready'') \<and>
         t \<noteq> Some (JStr ''job_status'') \<and> t \<noteq> Some (JStr ''account_status'') \<and> t \<noteq> Some (JStr ''error''))"
    by blast
  then show ?thesis
  proof (elim disjE conjE)
    assume "t = Some (JStr ''ping'')"
    then show ?thesis by (intro disjI1) (simp only: dispatch_ping, simp)
  next
    assume "t = Some (JStr ''pong'')"
    then show ?thesis by (intro disjI2 disjI1) (simp only: dispatch_pong, simp)
  next
    assume "t = Some (JStr ''cost_update'')"
    then show ?thesis
      by (intro disjI2 exI [of _ "''costUpdate''"]) (simp add: dispatch_typed)
  next
    assume "t = Some (JStr ''waste_detected'')"
    then show ?thesis
      by (intro disjI2 exI [of _ "''wasteDetected''"]) (simp add: dispatch_typed)
  next
    assume "t = Some (JStr ''recommendation_ready'')"
    then show ?thesis
      by (intro disjI2 exI [of _ "''recommendationReady''"]) (simp add: dispatch_typed)
  next
    assume "t = Some (JStr ''job_status'')"
    then show ?thesis
      by (intro disjI2 exI [of _ "''jobStatus''"]) (simp add: dispatch_typed)
  next
    assume "t = Some (JStr ''account_status'')"
    then show ?thesis
      by (intro disjI2 exI [of _ "''accountStatus''"]) (simp add: dispatch_typed)
  next
    assume "t = Some (JStr ''error'')"
    then show ?thesis
      by (intro disjI2 exI [of _ "''serverError''"]) (simp add: dispatch_typed)
  next
    assume "t \<noteq> Some (JStr ''ping'')" "t \<noteq> Some (JStr ''pong'')" "t \<noteq> Some (JStr ''cost_update'')"
      "t \<noteq> Some (JStr ''waste_detected'')" "t \<noteq> Some (JStr ''recommendation_ready'')"
      "t \<noteq> Some (JStr ''job_status'')" "t \<noteq> Some (JStr ''account_status'')" "t \<noteq> Some (JStr ''error'')"
    then show ?thesis
      by (intro disjI2 exI [of _ "''message''"]) (simp add: dispatch_default)
  qed
qed

lemma dispatch_fields [simp]:
  "shouldReconnect (dispatch t m s) = shouldReconnect s"
  "ctorThrows (dispatch t m s) = ctorThrows s"
  "mathPow (dispatch t m s) = mathPow s"
  "timeouts (dispatch t m s) = timeouts s"
  "reconnectTimeout (dispatch t m s) = reconnectTimeout s"
  "reconnectCount (dispatch t m s) = reconnectCount s"
  "options (dispatch t m s) = options s"
  "sockets (dispatch t m s) = sockets s"
  "ws (dispatch t m s) = ws s"
  using dispatch_shape [of t m] by (elim disjE exE conjE; simp)+

lemma dispatch_emissions:
  "emissions ''reconnecting'' (dispatch t m s) = emissions ''reconnecting'' s"
  using dispatch_shape [of t m] by (elim disjE exE conjE) (simp_all add: emissions_def)

lemma onmessage_failed:
  "onmessage None s = emit ''error'' (Err ParseFailed) s"
  "onmessage (Some JNull) s = emit ''error'' (Err ParseFailed) s"
  by (simp_all add: onmessage_def handleMessage_def)

lemma onmessage_parsed:
  "message \<noteq> JNull \<Longrightarrow>
   onmessage (Some message) s =
     emit ''rawMessage'' (Msg message) (dispatch (getProp message ''type'') message s)"
  by (simp add: onmessage_def handleMessage_def)

lemma onmessage_cases:
  "onmessage p s = emit ''error'' (Err ParseFailed) s \<or>
   (\<exists>m. onmessage p s = emit ''rawMessage'' (Msg m) (dispatch (getProp m ''type'') m s))"
proof (cases "p = None \<or> p = Some JNull")
  case True
  then show ?thesis using onmessage_failed by blast
next
  case False
  then obtain m where "p = Some m" "m \<noteq> JNull" by auto
  then show ?thesis using onmessage_parsed by blast
qed

lemma onmessage_fields [simp]:
  "shouldReconnect (onmessage p s) = shouldReconnect s"
  "ctorThrows (onmessage p s) = ctorThrows s"
  "mathPow (onmessage p s) = mathPow s"
  "timeouts (onmessage p s) = timeouts s"
  "reconnectTimeout (onmessage p s) = reconnectTimeout s"
  "reconnectCount (onmessage p s) = reconnectCount s"
  "options (onmessage p s) = options s"
  "sockets (onmessage p s) = sockets s"
  "ws (onmessage p s) = ws s"
  using onmessage_cases [of p s] by (elim disjE exE; simp)+

lemma onmessage_emissions:
  "emissions ''reconnecting'' (onmessage p s) = emissions ''reconnecting'' s"
  using onmessage_cases [of p s] dispatch_emissions
  by (elim disjE exE) (simp_all add: emissions_def)

lemma onclose_fields [simp]:
  "shouldReconnect (onclose c s) = shouldReconnect s"
  "ctorThrows (onclose c s) = ctorThrows s"
  "mathPow (onclose c s) = mathPow s"
  "options (onclose c s) = options s"
  "sockets (onclose c s) = sockets s"
  "ws (onclose c s) = ws s"
  by (simp_all add: onclose_def Let_def)


subsection \<open>The message handlers do not read the notification log\<close>

lemma emit_frame:
  "emit n a (s\<lparr>emitted := ys\<rparr>) =
     (emit n a s)\<lparr>emitted := ys @ drop (length (emitted s)) (emitted (emit n a s))\<rparr>"
  by (simp add: emit_def)

lemma wsIsOpen_emitted [simp]: "wsIsOpen (s\<lparr>emitted := ys\<rparr>) = wsIsOpen s"
  by (simp add: wsIsOpen_def split: option.split)

lemma send_frame:
  "send m (s\<lparr>emitted := ys\<rparr>) =
     (send m s)\<lparr>emitted := ys @ drop (length (emitted s)) (emitted (send m s))\<rparr>"
  by (simp add: send_def emit_def split: option.split)

lemma dispatch_frame:
  "dispatch t m (s\<lparr>emitted := ys\<rparr>) =
     (dispatch t m s)\<lparr>emitted := ys @ drop (length (emitted s)) (emitted (dispatch t m s))\<rparr>"
  using dispatch_shape [of t m] send_frame emit_frame by (elim disjE exE conjE) simp_all

lemma onmessage_frame:
  "onmessage p (s\<lparr>emitted := ys\<rparr>) =
     (onmessage p s)\<lparr>emitted := ys @ drop (length (emitted s)) (emitted (onmessage p s))\<rparr>"
proof (cases "p = None \<or> p = Some JNull")
  case True
  then show ?thesis
    by (elim disjE) (simp_all add: onmessage_failed emit_def)
next
  case False
  then obtain m where m: "p = Some m" "m \<noteq> JNull" by auto
  have d: "length (emitted s) \<le> length (emitted (dispatch (getProp m ''type'') m s))"
    using dispatch_shape [of "getProp m ''type''" m]
    by (elim disjE exE conjE) simp_all
  show ?thesis
    unfolding m(1) onmessage_parsed [OF m(2)]
    by (subst dispatch_frame) (simp add: emit_def d)
qed

subsection \<open>The sample states\<close>

lemma freshChannel_state:
  "freshChannel = \<lparr> ws = None,
       options = \<lparr> o_token = ''secret'', o_filters = None, o_reconnectAttempts = Some 5, o_reconnectDelay = Some (Num 5000) \<rparr>,
       reconnectCount = 0, pingInterval = None, reconnectTimeout = None,
       isConnecting = False, shouldReconnect = True, sockets = [], intervals = {},
       timeouts = Map.empty, nextTimer = 1, ctorThrows = False, mathPow = roundedPow, emitted = [], sent = [], closeCalls = [] \<rparr>"
  by (simp add: freshChannel_def WebSocketClient_def sampleOptions_def)

lemma openChannel_state:
  "openChannel = \<lparr> ws = Some 0,
       options = \<lparr> o_token = ''secret'', o_filters = None, o_reconnectAttempts = Some 5, o_reconnectDelay = Some (Num 5000) \<rparr>,
       reconnectCount = 0, pingInterval = Some 1, reconnectTimeout = None,
       isConnecting = False, shouldReconnect = True,
       sockets = [\<lparr> ready = OPEN, url_token = ''secret'', url_filters = None \<rparr>], intervals = {1},
       timeouts = Map.empty, nextTimer = 2, ctorThrows = False, mathPow = roundedPow,
       emitted = [(''connected'', NoArg)], sent = [], closeCalls = [] \<rparr>"
  by (simp add: openChannel_def freshChannel_state connect_def wsIsOpen_def onopen_def setReady_def emit_def
      startPingInterval_def Let_def)

subsection \<open>Control frames (C1)\<close>

lemma getProp_not_null: "getProp message k = Some v \<Longrightarrow> message \<noteq> JNull"
  by (cases message) simp_all

lemma pong_frame_time:
  "getProp (JObj (objectLit [(''type'', Some (JStr ''pong'')), (''server_time'', x)])) ''server_time'' = x"
  by (cases x) simp_all

text \<open>
  The claim as written fails: the raw-message emit at the end of handleMessage is outside the
  switch, so a ping that arrives on an open channel is published on the rawMessage channel.
\<close>

theorem C1_ping_reaches_rawMessage:
  "(''rawMessage'', Msg pingMessage) \<in> set (emitted (step (WsMessage 0 (Some pingMessage)) openChannel))"
  by (simp add: openChannel_state onmessage_def handleMessage_def pingMessage_def dispatch_def send_def
      wsIsOpen_def emit_def)

text \<open>
  C1, as amended. An inbound envelope of type pong notifies the rawMessage channel once and
  nothing else. An inbound ping received while the owned transport is open sends exactly one
  pong frame on it, whose server_time is the server_time of the ping (left out when the ping
  has none), and then notifies rawMessage once; while the owned transport is not open it
  sends nothing and notifies the error channel and then rawMessage. In no case is the
  generic message channel or a type-specific channel notified.
\<close>

theorem C1_control_frames:
  "(getProp message ''type'' = Some (JStr ''pong'') \<longrightarrow>
      onmessage (Some message) s = s\<lparr>emitted := emitted s @ [(''rawMessage'', Msg message)]\<rparr>) \<and>
   (getProp message ''type'' = Some (JStr ''ping'') \<and> wsIsOpen s \<and> ws s = Some i \<longrightarrow>
      onmessage (Some message) s =
        s\<lparr>sent := sent s @ [(i, JObj (objectLit [(''type'', Some (JStr ''pong'')),
                                                  (''server_time'', getProp message ''server_time'')]))],
          emitted := emitted s @ [(''rawMessage'', Msg message)]\<rparr> \<and>
      getProp (snd (last (sent (onmessage (Some message) s)))) ''server_time'' =
        getProp message ''server_time'') \<and>
   (getProp message ''type'' = Some (JStr ''ping'') \<and> \<not> wsIsOpen s \<longrightarrow>
      onmessage (Some message) s =
        s\<lparr>emitted := emitted s @ [(''error'', Err NotConnected), (''rawMessage'', Msg message)]\<rparr>)"
proof (intro conjI impI)
  assume "getProp message ''type'' = Some (JStr ''pong'')"
  then show "onmessage (Some message) s = s\<lparr>emitted := emitted s @ [(''rawMessage'', Msg message)]\<rparr>"
    using getProp_not_null [of message "''type''"]
    by (simp add: onmessage_parsed dispatch_pong emit_def)
next
  assume a: "getProp message ''type'' = Some (JStr ''ping'') \<and> wsIsOpen s \<and> ws s = Some i"
  then have n: "message \<noteq> JNull" using getProp_not_null by blast
  from a show e: "onmessage (Some message) s =
        s\<lparr>sent := sent s @ [(i, JObj (objectLit [(''type'', Some (JStr ''pong'')),
                                                  (''server_time'', getProp message ''server_time'')]))],
          emitted := emitted s @ [(''rawMessage'', Msg message)]\<rparr>"
    by (simp add: onmessage_parsed [OF n] dispatch_ping send_def emit_def)
  show "getProp (snd (last (sent (onmessage (Some message) s)))) ''server_time'' =
        getProp message ''server_time''"
    unfolding e using pong_frame_time [of "getProp message ''server_time''"]
    by (simp del: objectLit.simps)
next
  assume a: "getProp message ''type'' = Some (JStr ''ping'') \<and> \<not> wsIsOpen s"
  then have n: "message \<noteq> JNull" using getProp_not_null by blast
  from a show "onmessage (Some message) s =
        s\<lparr>emitted := emitted s @ [(''error'', Err NotConnected), (''rawMessage'', Msg message)]\<rparr>"
    by (simp add: onmessage_parsed [OF n] dispatch_ping send_def emit_def)
qed

theorem C1_control_frames_witness:
  "getProp pongMessage ''type'' = Some (JStr ''pong'') \<and>
   onmessage (Some pongMessage) openChannel =
     openChannel\<lparr>emitted := emitted openChannel @ [(''rawMessage'', Msg pongMessage)]\<rparr> \<and>
   getProp pingMessage ''type'' = Some (JStr ''ping'') \<and> wsIsOpen openChannel \<and> ws openChannel = Some 0 \<and>
   sent (onmessage (Some pingMessage) openChannel) =
     [(0, JObj [(''type'', JStr ''pong''), (''server_time'', JStr ''12:00:00'')])] \<and>
   \<not> wsIsOpen freshChannel \<and>
   emitted (onmessage (Some pingMessage) freshChannel) =
     [(''error'', Err NotConnected), (''rawMessage'', Msg pingMessage)]"
proof -
  have p: "getProp pongMessage ''type'' = Some (JStr ''pong'')"
    by (simp add: pongMessage_def)
  have q: "getProp pingMessage ''type'' = Some (JStr ''ping'')"
    "getProp pingMessage ''server_time'' = Some (JStr ''12:00:00'')"
    by (simp_all add: pingMessage_def)
  have o: "wsIsOpen openChannel" "ws openChannel = Some 0" "sent openChannel = []"
    by (simp_all add: openChannel_state wsIsOpen_def)
  have f: "\<not> wsIsOpen freshChannel" "emitted freshChannel = []"
    by (simp_all add: freshChannel_state wsIsOpen_def)
  show ?thesis
    using C1_control_frames [of pongMessage openChannel 0]
      C1_control_frames [of pingMessage openChannel 0]
      C1_control_frames [of pingMessage freshChannel 0]
    by (simp add: p q o f)
qed

subsection \<open>Frames that do not parse (C6)\<close>

text \<open>
  The claim as written fails on a frame that is valid JSON but not an envelope. The frame
  {} has no type; the channel reports no parse error for it and notifies the subscribers
  of the message channel and of the rawMessage channel with it.
\<close>

theorem C6_bare_object_is_forwarded:
  "getProp (JObj []) ''type'' = None \<and>
   step (WsMessage 0 (Some (JObj []))) openChannel =
     openChannel\<lparr>emitted := [(''connected'', NoArg), (''message'', Msg (JObj [])),
                              (''rawMessage'', Msg (JObj []))]\<rparr> \<and>
   emissions ''error'' (step (WsMessage 0 (Some (JObj []))) openChannel) = 0"
proof -
  have l: "0 < length (sockets openChannel)" "emitted openChannel = [(''connected'', NoArg)]"
    by (simp_all add: openChannel_state)
  have n: "JObj [] \<noteq> JNull" by simp
  have d: "dispatch None (JObj []) openChannel = emit ''message'' (Msg (JObj [])) openChannel"
    by (intro dispatch_default) simp_all
  have e: "step (WsMessage 0 (Some (JObj []))) openChannel =
     openChannel\<lparr>emitted := [(''connected'', NoArg), (''message'', Msg (JObj [])),
                              (''rawMessage'', Msg (JObj []))]\<rparr>"
    using l by (simp add: onmessage_parsed [OF n] d emit_def)
  show ?thesis
    unfolding e by (simp add: emissions_def)
qed

text \<open>
  C6, as amended. A frame for which JSON.parse throws, or which parses to null (reading
  its type throws inside the same try block), adds exactly one notification, the parse
  error on the error channel, and changes nothing else: no other channel is notified, and
  the ready states, the owned transport (so the ConnectionState the getter reports), the
  timers and the counters are as before. The channel goes on: whatever frame comes next is
  handled exactly as it would have been without the bad frame, with the one error
  notification in front of what it emits. A frame that parses to any other value without
  a non-empty string type (a number, a string, an array, an object with no type, with a
  type that is not a string, or with the empty string as type) is not reported as an error:
  it is forwarded on the message channel and then on the rawMessage channel, and changes
  nothing else.
\<close>

theorem C6_parse_failure:
  "((parsed = None \<or> parsed = Some JNull) \<and> i < length (sockets s) \<longrightarrow>
     step (WsMessage i parsed) s = s\<lparr>emitted := emitted s @ [(''error'', Err ParseFailed)]\<rparr> \<and>
     connectionState (step (WsMessage i parsed) s) = connectionState s \<and>
     (\<forall>later. step (WsMessage i later) (step (WsMessage i parsed) s) =
        (step (WsMessage i later) s)
          \<lparr>emitted := (emitted s @ [(''error'', Err ParseFailed)]) @
                      drop (length (emitted s)) (emitted (step (WsMessage i later) s))\<rparr>)) \<and>
   (message \<noteq> JNull \<and> (\<forall>t. getProp message ''type'' = Some (JStr t) \<longrightarrow> t = []) \<and>
    i < length (sockets s) \<longrightarrow>
     step (WsMessage i (Some message)) s =
       s\<lparr>emitted := emitted s @ [(''message'', Msg message), (''rawMessage'', Msg message)]\<rparr> \<and>
     connectionState (step (WsMessage i (Some message)) s) = connectionState s)"
proof (intro conjI impI; elim conjE)
  assume p: "parsed = None \<or> parsed = Some JNull" and i: "i < length (sockets s)"
  from p have e: "onmessage parsed s = s\<lparr>emitted := emitted s @ [(''error'', Err ParseFailed)]\<rparr>"
    by (elim disjE) (simp_all add: onmessage_failed emit_def)
  have c: "connectionState (s\<lparr>emitted := x\<rparr>) = connectionState s" for x
    by (simp add: connectionState_def split: option.split)
  show "step (WsMessage i parsed) s = s\<lparr>emitted := emitted s @ [(''error'', Err ParseFailed)]\<rparr>"
    using i by (simp add: e)
  show "connectionState (step (WsMessage i parsed) s) = connectionState s"
    using i by (simp add: e c)
  show "\<forall>later. step (WsMessage i later) (step (WsMessage i parsed) s) =
        (step (WsMessage i later) s)
          \<lparr>emitted := (emitted s @ [(''error'', Err ParseFailed)]) @
                      drop (length (emitted s)) (emitted (step (WsMessage i later) s))\<rparr>"
    using i by (simp add: e onmessage_frame)
next
  assume n: "message \<noteq> JNull" and t: "\<forall>t. getProp message ''type'' = Some (JStr t) \<longrightarrow> t = []"
    and i: "i < length (sockets s)"
  have d: "dispatch (getProp message ''type'') message s = emit ''message'' (Msg message) s"
  proof (intro dispatch_default)
    show "getProp message ''type'' \<noteq> Some (JStr ''ping'')" using t by fastforce
    show "getProp message ''type'' \<noteq> Some (JStr ''pong'')" using t by fastforce
    show "getProp message ''type'' \<noteq> Some (JStr ''cost_update'')" using t by fastforce
    show "getProp message ''type'' \<noteq> Some (JStr ''waste_detected'')" using t by fastforce
    show "getProp message ''type'' \<noteq> Some (JStr ''recommendation_ready'')" using t by fastforce
    show "getProp message ''type'' \<noteq> Some (JStr ''job_status'')" using t by fastforce
    show "getProp message ''type'' \<noteq> Some (JStr ''account_status'')" using t by fastforce
    show "getProp message ''type'' \<noteq> Some (JStr ''error'')" using t by fastforce
  qed
  have c: "connectionState (s\<lparr>emitted := x\<rparr>) = connectionState s" for x
    by (simp add: connectionState_def split: option.split)
  have e: "onmessage (Some message) s =
      s\<lparr>emitted := emitted s @ [(''message'', Msg message), (''rawMessage'', Msg message)]\<rparr>"
    by (simp add: onmessage_parsed [OF n] d emit_def)
  show "step (WsMessage i (Some message)) s =
       s\<lparr>emitted := emitted s @ [(''message'', Msg message), (''rawMessage'', Msg message)]\<rparr>"
    using i by (simp add: e)
  show "connectionState (step (WsMessage i (Some message)) s) = connectionState s"
    using i by (simp add: e c)
qed

theorem C6_parse_failure_witness:
  "0 < length (sockets openChannel) \<and>
   step (WsMessage 0 None) openChannel =
     openChannel\<lparr>emitted := [(''connected'', NoArg), (''error'', Err ParseFailed)]\<rparr> \<and>
   emitted (step (WsMessage 0 (Some costUpdateMessage)) (step (WsMessage 0 None) openChannel)) =
     [(''connected'', NoArg), (''error'', Err ParseFailed),
      (''costUpdate'', Msg costUpdateMessage), (''rawMessage'', Msg costUpdateMessage)] \<and>
   JNum 42 \<noteq> JNull \<and> getProp (JNum 42) ''type'' = None \<and>
   step (WsMessage 0 (Some (JNum 42))) openChannel =
     openChannel\<lparr>emitted := [(''connected'', NoArg), (''message'', Msg (JNum 42)),
                              (''rawMessage'', Msg (JNum 42))]\<rparr>"
proof -
  have l: "length (sockets openChannel) = 1" "emitted openChannel = [(''connected'', NoArg)]"
    by (simp_all add: openChannel_state)
  have c: "emitted (step (WsMessage 0 (Some costUpdateMessage)) openChannel) =
      [(''connected'', NoArg), (''costUpdate'', Msg costUpdateMessage), (''rawMessage'', Msg costUpdateMessage)]"
    by (simp add: l onmessage_def handleMessage_def costUpdateMessage_def dispatch_def)
  have pre: "(None = None \<or> None = Some JNull) \<and> 0 < length (sockets openChannel)"
    by (simp add: l)
  have pre2: "JNum 42 \<noteq> JNull \<and> (\<forall>t. getProp (JNum 42) ''type'' = Some (JStr t) \<longrightarrow> t = []) \<and>
      0 < length (sockets openChannel)"
    by (simp add: l)
  note w = C6_parse_failure [of None 0 openChannel "JNum 42", THEN conjunct1, THEN mp, OF pre]
  note v = C6_parse_failure [of None 0 openChannel "JNum 42", THEN conjunct2, THEN mp, OF pre2,
      THEN conjunct1]
  note w1 = w [THEN conjunct1]
  note w2 = w [THEN conjunct2, THEN conjunct2, THEN spec, of "Some costUpdateMessage"]
  have a: "emitted (step (WsMessage 0 (Some costUpdateMessage)) (step (WsMessage 0 None) openChannel)) =
     [(''connected'', NoArg), (''error'', Err ParseFailed),
      (''costUpdate'', Msg costUpdateMessage), (''rawMessage'', Msg costUpdateMessage)]"
    unfolding w2 by (simp add: l c del: step.simps)
  have b: "step (WsMessage 0 (Some (JNum 42))) openChannel =
     openChannel\<lparr>emitted := [(''connected'', NoArg), (''message'', Msg (JNum 42)),
                              (''rawMessage'', Msg (JNum 42))]\<rparr>"
    unfolding v by (simp add: l)
  show ?thesis
    using a b unfolding w1 by (simp add: l del: step.simps)
qed

subsection \<open>Typed dispatch (C7)\<close>

text \<open>
  C7. An envelope whose type is one of cost_update, waste_detected, recommendation_ready,
  job_status, account_status and error notifies its own channel and then the rawMessage
  channel, in that order and in the one call, and nothing else (so never the generic
  message channel). A parsed value whose type is none of the eight recognized strings
  (or is missing) notifies the generic message channel and then rawMessage.
\<close>

theorem C7_dispatch:
  "(getProp message ''type'' = Some (JStr t) \<and>
     (t, ch) \<in> set [(''cost_update'', ''costUpdate''), (''waste_detected'', ''wasteDetected''),
                    (''recommendation_ready'', ''recommendationReady''), (''job_status'', ''jobStatus''),
                    (''account_status'', ''accountStatus''), (''error'', ''serverError'')] \<longrightarrow>
       onmessage (Some message) s =
         s\<lparr>emitted := emitted s @ [(ch, Msg message), (''rawMessage'', Msg message)]\<rparr>) \<and>
   (message \<noteq> JNull \<and>
     (\<forall>t \<in> set [''ping'', ''pong'', ''cost_update'', ''waste_detected'', ''recommendation_ready'',
                 ''job_status'', ''account_status'', ''error'']. getProp message ''type'' \<noteq> Some (JStr t)) \<longrightarrow>
       onmessage (Some message) s =
         s\<lparr>emitted := emitted s @ [(''message'', Msg message), (''rawMessage'', Msg message)]\<rparr>)"
proof (intro conjI impI)
  assume a: "getProp message ''type'' = Some (JStr t) \<and>
     (t, ch) \<in> set [(''cost_update'', ''costUpdate''), (''waste_detected'', ''wasteDetected''),
                    (''recommendation_ready'', ''recommendationReady''), (''job_status'', ''jobStatus''),
                    (''account_status'', ''accountStatus''), (''error'', ''serverError'')]"
  then have n: "message \<noteq> JNull" using getProp_not_null by blast
  from a have "(t = ''cost_update'' \<and> ch = ''costUpdate'') \<or> (t = ''waste_detected'' \<and> ch = ''wasteDetected'') \<or>
      (t = ''recommendation_ready'' \<and> ch = ''recommendationReady'') \<or> (t = ''job_status'' \<and> ch = ''jobStatus'') \<or>
      (t = ''account_status'' \<and> ch = ''accountStatus'') \<or> (t = ''error'' \<and> ch = ''serverError'')"
    by simp
  then show "onmessage (Some message) s =
         s\<lparr>emitted := emitted s @ [(ch, Msg message), (''rawMessage'', Msg message)]\<rparr>"
    using a by (elim disjE conjE) (simp_all add: onmessage_parsed [OF n] dispatch_typed emit_def)
next
  assume b: "message \<noteq> JNull \<and>
     (\<forall>t \<in> set [''ping'', ''pong'', ''cost_update'', ''waste_detected'', ''recommendation_ready'',
                 ''job_status'', ''account_status'', ''error'']. getProp message ''type'' \<noteq> Some (JStr t))"
  then have "dispatch (getProp message ''type'') message s = emit ''message'' (Msg message) s"
    by (intro dispatch_default) simp_all
  then show "onmessage (Some message) s =
         s\<lparr>emitted := emitted s @ [(''message'', Msg message), (''rawMessage'', Msg message)]\<rparr>"
    using b by (simp add: onmessage_parsed emit_def)
qed

theorem C7_dispatch_witness:
  "getProp costUpdateMessage ''type'' = Some (JStr ''cost_update'') \<and>
   emitted (onmessage (Some costUpdateMessage) openChannel) =
     [(''connected'', NoArg), (''costUpdate'', Msg costUpdateMessage), (''rawMessage'', Msg costUpdateMessage)] \<and>
   helloMessage \<noteq> JNull \<and> getProp helloMessage ''type'' = Some (JStr ''hello'') \<and>
   emitted (onmessage (Some helloMessage) openChannel) =
     [(''connected'', NoArg), (''message'', Msg helloMessage), (''rawMessage'', Msg helloMessage)]"
proof -
  have c: "getProp costUpdateMessage ''type'' = Some (JStr ''cost_update'')"
    by (simp add: costUpdateMessage_def)
  have h: "helloMessage \<noteq> JNull" "getProp helloMessage ''type'' = Some (JStr ''hello'')"
    by (simp_all add: helloMessage_def)
  have e: "emitted openChannel = [(''connected'', NoArg)]"
    by (simp add: openChannel_state)
  show ?thesis
    using C7_dispatch [of costUpdateMessage "''cost_update''" "''costUpdate''" openChannel]
      C7_dispatch [of helloMessage "''hello''" "''hello''" openChannel]
    by (simp add: c h e)
qed

subsection \<open>Filters changed while the channel is down (C2)\<close>

lemma updateFilters_not_open:
  "\<not> wsIsOpen s \<Longrightarrow>
   updateFilters f s =
     s\<lparr>options := (options s)\<lparr>o_filters := Some f\<rparr>,
       emitted := emitted s @ [(''error'', Err NotConnected)]\<rparr>"
  by (simp add: updateFilters_def send_def emit_def wsIsOpen_cong [of "s\<lparr>options := x\<rparr>" s for x])

lemma onopen_sent [simp]: "sent (onopen s) = sent s"
  by (simp add: onopen_def startPingInterval_def emit_def Let_def)

lemma setReady_sent [simp]: "sent (setReady i r s) = sent s"
  by (simp add: setReady_def)

text \<open>
  The claim as written fails in its last part: onopen sends nothing, so after updateFilters
  on a channel that is down, connect and a successful open, no frame has been sent at all.
\<close>

theorem C2_no_subscribe_after_open:
  "sent (run [UpdateFilters sampleFilters, Connect, WsOpen 0] freshChannel) = []"
  by (simp add: freshChannel_state updateFilters_not_open wsIsOpen_def connect_def Let_def)

text \<open>
  C2, as amended. If updateFilters is called while the owned transport is not open, no frame
  is sent (an error notification is emitted instead) and the stored FilterSet is replaced
  in full by the new one. No later open sends a subscribe frame: the open callback sends
  nothing. The latest filters reach the server as a connection parameter instead: the next
  connect that creates a transport puts them in its URL.
\<close>

theorem C2_filters_while_not_connected:
  "\<not> wsIsOpen s \<longrightarrow>
     sent (updateFilters f s) = sent s \<and>
     emitted (updateFilters f s) = emitted s @ [(''error'', Err NotConnected)] \<and>
     o_filters (options (updateFilters f s)) = Some f \<and>
     (\<forall>i. sent (step (WsOpen i) (updateFilters f s)) = sent s) \<and>
     (\<not> isConnecting s \<and> \<not> ctorThrows s \<longrightarrow>
        sockets (connect (updateFilters f s)) =
          sockets s @ [\<lparr> ready = CONNECTING, url_token = o_token (options s), url_filters = Some f \<rparr>] \<and>
        ws (connect (updateFilters f s)) = Some (length (sockets s)) \<and>
        sent (step (WsOpen (length (sockets s))) (connect (updateFilters f s))) = sent s)"
proof (intro impI)
  assume n: "\<not> wsIsOpen s"
  have u: "updateFilters f s =
     s\<lparr>options := (options s)\<lparr>o_filters := Some f\<rparr>,
       emitted := emitted s @ [(''error'', Err NotConnected)]\<rparr>"
    using n by (rule updateFilters_not_open)
  have o: "\<not> wsIsOpen (updateFilters f s)"
    using n wsIsOpen_cong [of "updateFilters f s" s] by simp
  have c: "\<not> isConnecting s \<and> \<not> ctorThrows s \<longrightarrow>
      connect (updateFilters f s) =
        (updateFilters f s)\<lparr>isConnecting := True,
          sockets := sockets s @ [\<lparr> ready = CONNECTING, url_token = o_token (options s), url_filters = Some f \<rparr>],
          ws := Some (length (sockets s))\<rparr>"
    using o by (simp add: connect_def Let_def) (simp add: u)
  show "sent (updateFilters f s) = sent s \<and>
     emitted (updateFilters f s) = emitted s @ [(''error'', Err NotConnected)] \<and>
     o_filters (options (updateFilters f s)) = Some f \<and>
     (\<forall>i. sent (step (WsOpen i) (updateFilters f s)) = sent s) \<and>
     (\<not> isConnecting s \<and> \<not> ctorThrows s \<longrightarrow>
        sockets (connect (updateFilters f s)) =
          sockets s @ [\<lparr> ready = CONNECTING, url_token = o_token (options s), url_filters = Some f \<rparr>] \<and>
        ws (connect (updateFilters f s)) = Some (length (sockets s)) \<and>
        sent (step (WsOpen (length (sockets s))) (connect (updateFilters f s))) = sent s)"
  proof (intro conjI allI impI)
    show "sent (updateFilters f s) = sent s" by (simp add: u)
    show "emitted (updateFilters f s) = emitted s @ [(''error'', Err NotConnected)]" by (simp add: u)
    show "o_filters (options (updateFilters f s)) = Some f" by (simp add: u)
    show "sent (step (WsOpen i) (updateFilters f s)) = sent s" for i by (simp add: u)
  next
    assume a: "\<not> isConnecting s \<and> \<not> ctorThrows s"
    note e = c [THEN mp, OF a]
    show "sockets (connect (updateFilters f s)) =
          sockets s @ [\<lparr> ready = CONNECTING, url_token = o_token (options s), url_filters = Some f \<rparr>]"
      unfolding e by simp
    show "ws (connect (updateFilters f s)) = Some (length (sockets s))"
      unfolding e by simp
    show "sent (step (WsOpen (length (sockets s))) (connect (updateFilters f s))) = sent s"
      unfolding e by (simp add: u)
  qed
qed

theorem C2_filters_while_not_connected_witness:
  "\<not> wsIsOpen freshChannel \<and>
   sent (updateFilters sampleFilters freshChannel) = [] \<and>
   emitted (updateFilters sampleFilters freshChannel) = [(''error'', Err NotConnected)] \<and>
   \<not> isConnecting freshChannel \<and> \<not> ctorThrows freshChannel \<and>
   sockets (connect (updateFilters sampleFilters freshChannel)) =
     [\<lparr> ready = CONNECTING, url_token = ''secret'', url_filters = Some sampleFilters \<rparr>] \<and>
   sent (step (WsOpen 0) (connect (updateFilters sampleFilters freshChannel))) = []"
proof -
  have f: "\<not> wsIsOpen freshChannel" "\<not> isConnecting freshChannel" "\<not> ctorThrows freshChannel"
    "sent freshChannel = []" "emitted freshChannel = []" "sockets freshChannel = []"
    "o_token (options freshChannel) = ''secret''"
    by (simp_all add: freshChannel_state wsIsOpen_def)
  show ?thesis
    using C2_filters_while_not_connected [of freshChannel sampleFilters]
    by (simp add: f del: step.simps)
qed

subsection \<open>Callbacks of a discarded transport (C8)\<close>

lemma reopened_state:
  "reopened = \<lparr> ws = Some 1,
       options = \<lparr> o_token = ''secret'', o_filters = None, o_reconnectAttempts = Some 5, o_reconnectDelay = Some (Num 5000) \<rparr>,
       reconnectCount = 0, pingInterval = Some 2, reconnectTimeout = None,
       isConnecting = False, shouldReconnect = False,
       sockets = [\<lparr> ready = CLOSING, url_token = ''secret'', url_filters = None \<rparr>,
                  \<lparr> ready = OPEN, url_token = ''secret'', url_filters = None \<rparr>],
       intervals = {2}, timeouts = Map.empty, nextTimer = 3, ctorThrows = False, mathPow = roundedPow,
       emitted = [(''connected'', NoArg), (''connected'', NoArg)], sent = [],
       closeCalls = [(0, 1000, ''Client disconnect'')] \<rparr>"
proof -
  have "reopened = run [Disconnect, Connect, WsOpen 1] openChannel"
    by (simp add: reopened_def openChannel_def)
  then show ?thesis
    by (simp add: openChannel_state disconnect_def cleanup_def wsClose_def connect_def wsIsOpen_def
        onopen_def setReady_def emit_def startPingInterval_def Let_def)
qed

text \<open>
  The claim as written fails. The channel is opened, disconnect asks the first transport
  to close, connect creates a second transport, which opens and starts its heartbeat; then
  the close callback of the first transport arrives. It is handled like any other: it
  cancels the heartbeat of the second transport and emits a disconnected notification.
\<close>

theorem C8_late_close_is_processed:
  "ws reopened = Some 1 \<and> ready (sockets reopened ! 1) = OPEN \<and>
   pingInterval reopened = Some 2 \<and> 2 \<in> intervals reopened \<and>
   pingInterval (step (WsClose 0 1000) reopened) = None \<and>
   intervals (step (WsClose 0 1000) reopened) = {} \<and>
   emitted (step (WsClose 0 1000) reopened) = emitted reopened @ [(''disconnected'', CloseEvent 1000)]"
  by (simp add: reopened_state onclose_def setReady_def cleanup_def emit_def Let_def)

lemma onopen_setReady: "onopen (setReady i r s) = setReady i r (onopen s)"
  by (simp add: onopen_def setReady_def emit_def startPingInterval_def Let_def)

lemma onerror_setReady: "onerror (setReady i r s) = setReady i r (onerror s)"
  by (simp add: onerror_def setReady_def emit_def)

lemma cleanup_setReady: "cleanup (setReady i r s) = setReady i r (cleanup s)"
  by (simp add: cleanup_def setReady_def Let_def split: option.split)

lemma emit_setReady: "emit n a (setReady i r s) = setReady i r (emit n a s)"
  by (simp add: setReady_def emit_def)

lemma givesUp_setReady [simp]: "givesUp (setReady i r s) = givesUp s"
  by (simp add: givesUp_def split: option.split)

lemma scheduleReconnect_setReady: "scheduleReconnect (setReady i r s) = setReady i r (scheduleReconnect s)"
proof (cases "givesUp s")
  case True
  then show ?thesis
    by (simp add: scheduleReconnect_gives_up emit_setReady)
next
  case False
  then show ?thesis
    by (simp add: scheduleReconnect_schedules) (simp add: setReady_def)
qed

lemma isConnecting_setReady: "(setReady i r s)\<lparr>isConnecting := b\<rparr> = setReady i r (s\<lparr>isConnecting := b\<rparr>)"
  by (simp add: setReady_def)

lemma onclose_setReady: "onclose c (setReady i r s) = setReady i r (onclose c s)"
  by (simp add: onclose_def Let_def isConnecting_setReady cleanup_setReady emit_setReady
      scheduleReconnect_setReady)


lemma scheduleReconnect_keeps [simp]:
  "isConnecting (scheduleReconnect s) = isConnecting s"
  "pingInterval (scheduleReconnect s) = pingInterval s"
  "intervals (scheduleReconnect s) = intervals s"
  by (simp_all add: scheduleReconnect_def Let_def emit_def)

lemma onclose_effect:
  "isConnecting (onclose c s) = False"
  "pingInterval (onclose c s) = None"
  "intervals (onclose c s) = (case pingInterval s of Some h \<Rightarrow> intervals s - {h} | None \<Rightarrow> intervals s)"
  by (simp_all add: onclose_def Let_def cleanup_def emit_def split: option.split)

lemma emissions_emit [simp]:
  "emissions n (emit m a s) = emissions n s + (if m = n then 1 else 0)"
  by (simp add: emissions_def emit_def)

lemma emissions_cong: "emitted s' = emitted s \<Longrightarrow> emissions n s' = emissions n s"
  by (simp add: emissions_def)

lemma scheduleReconnect_emissions:
  "n \<noteq> ''reconnecting'' \<Longrightarrow> n \<noteq> ''reconnectFailed'' \<Longrightarrow> emissions n (scheduleReconnect s) = emissions n s"
  by (simp add: scheduleReconnect_def Let_def emissions_def emit_def)

lemma onclose_disconnected:
  "emissions ''disconnected'' (onclose c s) = emissions ''disconnected'' s + 1"
  by (simp add: onclose_def Let_def scheduleReconnect_emissions emissions_cong [of "cleanup x" x for x])
    (simp add: emissions_def)

text \<open>
  C8, as amended. The four callbacks are the same for every transport the channel has
  created and never look at which transport emitted them: whether or not the transport is
  the owned one, its open, message, error and close callbacks act on the channel exactly as
  the handlers prescribe. In particular a close callback of a discarded transport clears
  the connecting flag, cancels the heartbeat timer and emits a disconnected notification.
\<close>

theorem C8_callbacks_ignore_identity:
  "i < length (sockets s) \<longrightarrow>
     step (WsOpen i) s = setReady i OPEN (onopen s) \<and>
     step (WsMessage i parsed) s = onmessage parsed s \<and>
     step (WsError i) s = setReady i CLOSED (onerror s) \<and>
     step (WsClose i code) s = setReady i CLOSED (onclose code s) \<and>
     \<not> isConnecting (step (WsClose i code) s) \<and>
     pingInterval (step (WsClose i code) s) = None \<and>
     (\<forall>h. pingInterval s = Some h \<longrightarrow> h \<notin> intervals (step (WsClose i code) s)) \<and>
     emissions ''disconnected'' (step (WsClose i code) s) = emissions ''disconnected'' s + 1"
proof (intro impI)
  assume i: "i < length (sockets s)"
  have c: "step (WsClose i code) s = setReady i CLOSED (onclose code s)"
    using i by (simp add: onclose_setReady)
  have k: "isConnecting (setReady i r x) = isConnecting x" "intervals (setReady i r x) = intervals x"
    for r x by (simp_all add: setReady_def)
  show "step (WsOpen i) s = setReady i OPEN (onopen s) \<and>
     step (WsMessage i parsed) s = onmessage parsed s \<and>
     step (WsError i) s = setReady i CLOSED (onerror s) \<and>
     step (WsClose i code) s = setReady i CLOSED (onclose code s) \<and>
     \<not> isConnecting (step (WsClose i code) s) \<and>
     pingInterval (step (WsClose i code) s) = None \<and>
     (\<forall>h. pingInterval s = Some h \<longrightarrow> h \<notin> intervals (step (WsClose i code) s)) \<and>
     emissions ''disconnected'' (step (WsClose i code) s) = emissions ''disconnected'' s + 1"
    unfolding c using i
    by (simp add: onopen_setReady onerror_setReady k onclose_effect onclose_disconnected
        emissions_cong [of "setReady i CLOSED x" x for x])
qed

theorem C8_callbacks_ignore_identity_witness:
  "0 < length (sockets reopened) \<and> ws reopened = Some 1 \<and>
   step (WsClose 0 1000) reopened = setReady 0 CLOSED (onclose 1000 reopened) \<and>
   pingInterval reopened = Some 2 \<and> 2 \<notin> intervals (step (WsClose 0 1000) reopened) \<and>
   emissions ''disconnected'' (step (WsClose 0 1000) reopened) = 1"
proof -
  have r: "length (sockets reopened) = 2" "ws reopened = Some 1" "pingInterval reopened = Some 2"
    "emissions ''disconnected'' reopened = 0"
    by (simp_all add: reopened_state emissions_def)
  have pre: "0 < length (sockets reopened)" by (simp add: r)
  note w = C8_callbacks_ignore_identity [of 0 reopened None 1000, THEN mp, OF pre]
  have a: "step (WsClose 0 1000) reopened = setReady 0 CLOSED (onclose 1000 reopened)"
    using w by blast
  have b: "\<forall>h. pingInterval reopened = Some h \<longrightarrow> h \<notin> intervals (step (WsClose 0 1000) reopened)"
    using w by blast
  have c: "emissions ''disconnected'' (step (WsClose 0 1000) reopened) =
      emissions ''disconnected'' reopened + 1"
    using w by blast
  from b have b': "2 \<notin> intervals (step (WsClose 0 1000) reopened)"
    using r(3) by blast
  show ?thesis
    using pre a b' c r by (simp del: step.simps)
qed

subsection \<open>Turns in which nothing is scheduled\<close>

lemma emissions_append:
  "emitted s' = emitted s @ xs \<Longrightarrow> emissions n s' = emissions n s + length (filter (\<lambda>e. fst e = n) xs)"
  by (simp add: emissions_def)

lemma scheduleReconnect_givesUp:
  assumes "givesUp s"
  shows "scheduleReconnect s = emit ''reconnectFailed'' NoArg s"
  using assms by (intro scheduleReconnect_gives_up) (simp add: givesUp_def)

lemma quiet_refl: "quiet s s"
  by (simp add: quiet_def)

lemma quiet_trans:
  assumes "quiet s s'" and "quiet s' s''"
  shows "quiet s s''"
proof -
  have "dom (timeouts s'') \<subseteq> dom (timeouts s)"
    using assms unfolding quiet_def by blast
  moreover have "reconnectTimeout s = None \<longrightarrow> reconnectTimeout s'' = None"
    using assms unfolding quiet_def by blast
  ultimately show ?thesis
    using assms unfolding quiet_def by auto
qed

lemma quiet_givesUp: "givesUp s \<Longrightarrow> quiet s s' \<Longrightarrow> givesUp s'"
  by (auto simp: quiet_def givesUp_def split: option.splits)

lemma quiet_emit: "n \<noteq> ''reconnecting'' \<Longrightarrow> quiet s (emit n a s)"
  by (simp add: quiet_def)

lemma quiet_cleanup: "quiet s (cleanup s)"
  by (auto simp: quiet_def emissions_def split: option.split)

lemma quiet_scheduleReconnect: "givesUp s \<Longrightarrow> quiet s (scheduleReconnect s)"
  by (simp add: scheduleReconnect_givesUp quiet_emit)

lemma quiet_connect: "givesUp s \<Longrightarrow> quiet s (connect s)"
proof (cases "ctorThrows s")
  case False
  then show ?thesis
    by (simp add: quiet_def connect_no_throw emissions_def)
next
  case True
  assume g: "givesUp s"
  let ?a = "s\<lparr>isConnecting := True\<rparr>\<lparr>isConnecting := False\<rparr>"
  let ?b = "emit ''error'' (Err ConstructorThrew) ?a"
  have 1: "quiet s ?a" by (simp add: quiet_def emissions_def)
  have 2: "quiet ?a ?b" by (rule quiet_emit) simp
  have "givesUp ?b" using quiet_givesUp [OF g quiet_trans [OF 1 2]] .
  then have 3: "quiet ?b (scheduleReconnect ?b)" by (rule quiet_scheduleReconnect)
  have "connect s = s \<or> connect s = scheduleReconnect ?b"
    using True by (simp add: connect_def Let_def)
  then show ?thesis
    using quiet_refl quiet_trans [OF quiet_trans [OF 1 2] 3] by (elim disjE) simp_all
qed

lemma quiet_onclose: "givesUp s \<Longrightarrow> quiet s (onclose c s)"
proof -
  assume g: "givesUp s"
  let ?a = "s\<lparr>isConnecting := False\<rparr>"
  let ?b = "cleanup ?a"
  let ?c = "emit ''disconnected'' (CloseEvent c) ?b"
  have 1: "quiet s ?a" by (simp add: quiet_def emissions_def)
  have 2: "quiet ?a ?b" by (rule quiet_cleanup)
  have 3: "quiet ?b ?c" by (rule quiet_emit) simp
  note q = quiet_trans [OF quiet_trans [OF 1 2] 3]
  have "givesUp ?c" using quiet_givesUp [OF g q] .
  then have 4: "quiet ?c (scheduleReconnect ?c)" by (rule quiet_scheduleReconnect)
  have "onclose c s = ?c \<or> onclose c s = scheduleReconnect ?c"
    by (simp add: onclose_def Let_def)
  then show ?thesis
    using q quiet_trans [OF q 4] by (elim disjE) simp_all
qed

lemma quiet_step:
  assumes g: "givesUp s" and o: "\<not> shouldReconnect s \<or> (\<forall>i. e \<noteq> WsOpen i)"
  shows "quiet s (step e s)"
proof (cases e)
  case Connect
  then show ?thesis using g by (simp add: quiet_connect)
next
  case Disconnect
  then show ?thesis
    by (auto simp: quiet_def emissions_def split: option.split)
next
  case (Send m)
  then show ?thesis by (simp add: quiet_def emissions_def)
next
  case (UpdateFilters f)
  then show ?thesis by (simp add: quiet_def emissions_def)
next
  case (WsOpen i)
  then have "\<not> shouldReconnect s" using o by simp
  then show ?thesis using WsOpen by (simp add: quiet_def emissions_def)
next
  case (WsMessage i p)
  then show ?thesis by (simp add: quiet_def onmessage_emissions)
next
  case (WsClose i c)
  show ?thesis
  proof (cases "i < length (sockets s)")
    case True
    have 1: "quiet s (setReady i CLOSED s)" by (simp add: quiet_def emissions_def)
    have 2: "quiet (setReady i CLOSED s) (onclose c (setReady i CLOSED s))"
      using quiet_givesUp [OF g 1] by (rule quiet_onclose)
    show ?thesis using True WsClose quiet_trans [OF 1 2] by simp
  next
    case False
    then show ?thesis using WsClose by (simp add: quiet_refl)
  qed
next
  case (WsError i)
  then show ?thesis by (simp add: quiet_def emissions_def)
next
  case (PingTick h now)
  then show ?thesis by (simp add: quiet_def emissions_def)
next
  case (ReconnectFire h)
  show ?thesis
  proof (cases "h \<in> dom (timeouts s)")
    case True
    let ?a = "s\<lparr>timeouts := (timeouts s)(h := None)\<rparr>"
    have 1: "quiet s ?a" by (auto simp: quiet_def emissions_def)
    have 2: "quiet ?a (connect ?a)"
      using quiet_givesUp [OF g 1] by (rule quiet_connect)
    show ?thesis using True ReconnectFire quiet_trans [OF 1 2] by simp
  next
    case False
    then show ?thesis using ReconnectFire by (simp add: quiet_refl)
  qed
qed

lemma quiet_run:
  "givesUp s \<Longrightarrow> \<not> shouldReconnect s \<or> (\<forall>i. WsOpen i \<notin> set es) \<Longrightarrow> quiet s (run es s)"
proof (induction es arbitrary: s)
  case Nil
  then show ?case by (simp add: quiet_refl)
next
  case (Cons e es)
  have 1: "quiet s (step e s)"
    using Cons.prems by (intro quiet_step) auto
  have g: "givesUp (step e s)"
    using Cons.prems(1) 1 by (rule quiet_givesUp)
  have "\<not> shouldReconnect (step e s) \<or> (\<forall>i. WsOpen i \<notin> set es)"
    using Cons.prems(2) 1 by (auto simp: quiet_def)
  then have 2: "quiet (step e s) (run es (step e s))"
    using g Cons.IH by blast
  show ?case using quiet_trans [OF 1 2] by simp
qed

subsection \<open>No timeout escapes its handle; after disconnect the channel is inert\<close>

lemma step_ctorThrows [simp]: "ctorThrows (step e s) = ctorThrows s"
  by (cases e) simp_all

lemma run_ctorThrows [simp]: "ctorThrows (run es s) = ctorThrows s"
  by (induction es arbitrary: s) simp_all

lemma only_timeout_removed:
  assumes "dom m \<subseteq> {h}"
  shows "m(h := None) = Map.empty"
proof (rule ext)
  fix x
  show "(m(h := None)) x = None"
    using assms by (cases "x = h") (auto simp: domIff subset_iff)
qed

lemma noStray_scheduleReconnect:
  "dom (timeouts s) = {} \<Longrightarrow> noStrayTimeout (scheduleReconnect s)"
  by (simp add: scheduleReconnect_def Let_def noStrayTimeout_def)

lemma noStray_onclose:
  assumes "noStrayTimeout s"
  shows "noStrayTimeout (onclose c s)"
proof (cases "ctorThrows s")
  case True
  then show ?thesis by (simp add: noStrayTimeout_def)
next
  case False
  let ?b = "cleanup (s\<lparr>isConnecting := False\<rparr>)"
  let ?c = "emit ''disconnected'' (CloseEvent c) ?b"
  have e: "dom (timeouts ?c) = {}" "reconnectTimeout ?c = None"
    using assms False by (auto simp: noStrayTimeout_def only_timeout_removed split: option.split)
  have "onclose c s = ?c \<or> onclose c s = scheduleReconnect ?c"
    by (simp add: onclose_def Let_def)
  then show ?thesis
    using e noStray_scheduleReconnect [OF e(1)]
    by (elim disjE) (simp_all add: noStrayTimeout_def)
qed

lemma noStray_connect: "noStrayTimeout s \<Longrightarrow> noStrayTimeout (connect s)"
  by (cases "ctorThrows s") (simp_all add: noStrayTimeout_def connect_no_throw)

lemma noStray_step: "noStrayTimeout s \<Longrightarrow> noStrayTimeout (step e s)"
proof (cases e)
  case Disconnect
  assume "noStrayTimeout s"
  then show ?thesis using Disconnect
    by (auto simp: noStrayTimeout_def only_timeout_removed split: option.split)
next
  case (WsClose i c)
  assume "noStrayTimeout s"
  then have "noStrayTimeout (setReady i CLOSED s)"
    by (simp add: noStrayTimeout_def)
  then show ?thesis using WsClose \<open>noStrayTimeout s\<close> by (simp add: noStray_onclose)
next
  case (ReconnectFire h)
  assume a: "noStrayTimeout s"
  then have "noStrayTimeout (s\<lparr>timeouts := (timeouts s)(h := None)\<rparr>)"
    by (auto simp: noStrayTimeout_def)
  then show ?thesis using ReconnectFire a by (simp add: noStray_connect)
next
  case Connect
  assume "noStrayTimeout s"
  then show ?thesis using Connect by (simp add: noStray_connect)
qed (simp_all add: noStrayTimeout_def)

lemma noStray_run: "noStrayTimeout s \<Longrightarrow> noStrayTimeout (run es s)"
  by (induction es arbitrary: s) (simp_all add: noStray_step del: step.simps)

lemma noStray_new: "noStrayTimeout (WebSocketClient opts throws pw)"
  by (simp add: noStrayTimeout_def WebSocketClient_def)

lemma inert_disconnect: "noStrayTimeout s \<Longrightarrow> inert (disconnect s)"
  by (auto simp: inert_def noStrayTimeout_def only_timeout_removed split: option.split)

lemma inert_givesUp: "inert s \<Longrightarrow> givesUp s"
  by (simp add: inert_def givesUp_def)

lemma inert_step:
  assumes "inert s"
  shows "inert (step e s)"
proof -
  have "quiet s (step e s)"
    using assms by (intro quiet_step inert_givesUp) (simp_all add: inert_def)
  then show ?thesis
    using assms by (auto simp: inert_def quiet_def)
qed

lemma inert_no_transport:
  assumes "inert s" and "e \<noteq> Connect"
  shows "length (sockets (step e s)) = length (sockets s)"
proof (cases e)
  case (ReconnectFire h)
  show ?thesis
  proof (cases "ctorThrows s")
    case True
    then show ?thesis using ReconnectFire by (simp add: connect_throws)
  next
    case False
    then have "h \<notin> dom (timeouts s)" using assms(1) by (simp add: inert_def)
    then show ?thesis using ReconnectFire by simp
  qed
qed (use assms(2) in simp_all)

lemma inert_run:
  "inert s \<Longrightarrow> Connect \<notin> set es \<Longrightarrow> length (sockets (run es s)) = length (sockets s)"
proof (induction es arbitrary: s)
  case Nil
  then show ?case by simp
next
  case (Cons e es)
  have "length (sockets (run es (step e s))) = length (sockets (step e s))"
    using Cons.prems by (intro Cons.IH inert_step) simp_all
  moreover have "length (sockets (step e s)) = length (sockets s)"
    using Cons.prems by (intro inert_no_transport) auto
  ultimately show ?case by simp
qed

subsection \<open>disconnect (C5) and the flag it sets (C9)\<close>

lemma disconnect_closeCalls:
  "ws s = Some i \<Longrightarrow> closeCalls (disconnect s) = closeCalls s @ [(i, 1000, ''Client disconnect'')]"
  by (simp add: disconnect_def Let_def cleanup_def wsClose_def setReady_def split: option.split)

lemma disconnect_intervals:
  "pingInterval s = Some h \<Longrightarrow> h \<notin> intervals (disconnect s)"
  by (simp add: disconnect_def Let_def cleanup_def wsClose_def setReady_def split: option.split)

lemma disconnect_timeouts:
  "reconnectTimeout s = Some h \<Longrightarrow> h \<notin> dom (timeouts (disconnect s))"
  by simp

text \<open>
  C5. In the one call, disconnect clears the heartbeat handle and cancels its interval,
  clears the reconnect handle and cancels its timeout, unsets the reconnect flag and,
  when the channel owns a transport, asks it to close with the normal-closure code 1000.
  Afterwards, whatever the history of the channel since its construction was (so also
  when a reconnect was pending), no later turn other than an explicit connect creates a
  transport, whichever timers fire and callbacks arrive: the channel never goes to
  connecting by itself.
\<close>

theorem C5_disconnect:
  "pingInterval (disconnect s) = None \<and>
   reconnectTimeout (disconnect s) = None \<and>
   \<not> shouldReconnect (disconnect s) \<and>
   (\<forall>h. pingInterval s = Some h \<longrightarrow> h \<notin> intervals (disconnect s)) \<and>
   (\<forall>h. reconnectTimeout s = Some h \<longrightarrow> h \<notin> dom (timeouts (disconnect s))) \<and>
   (\<forall>i. ws s = Some i \<longrightarrow> closeCalls (disconnect s) = closeCalls s @ [(i, 1000, ''Client disconnect'')]) \<and>
   (Connect \<notin> set future \<longrightarrow>
      length (sockets (run future (disconnect (run history (WebSocketClient opts throws pw))))) =
      length (sockets (run history (WebSocketClient opts throws pw))))"
proof -
  have "noStrayTimeout (run history (WebSocketClient opts throws pw))"
    by (intro noStray_run noStray_new)
  then have "inert (disconnect (run history (WebSocketClient opts throws pw)))"
    by (rule inert_disconnect)
  then have "Connect \<notin> set future \<longrightarrow>
      length (sockets (run future (disconnect (run history (WebSocketClient opts throws pw))))) =
      length (sockets (run history (WebSocketClient opts throws pw)))"
    using inert_run [of "disconnect (run history (WebSocketClient opts throws pw))" future] by simp
  then show ?thesis
    using disconnect_closeCalls [of s] disconnect_intervals [of s] disconnect_timeouts [of s]
    by simp
qed

text \<open>
  C9. Once disconnect has been called, whatever happens afterwards (explicit connect calls,
  successful opens and abnormal closures included), the reconnect flag stays unset, no
  reconnect timeout is held or added, and no reconnecting notification is emitted: no
  automatic reconnect attempt is scheduled for the rest of the life of the instance.
\<close>

theorem C9_flag_is_sticky:
  "\<not> shouldReconnect (run future (disconnect s)) \<and>
   reconnectTimeout (run future (disconnect s)) = None \<and>
   dom (timeouts (run future (disconnect s))) \<subseteq> dom (timeouts (disconnect s)) \<and>
   emissions ''reconnecting'' (run future (disconnect s)) = emissions ''reconnecting'' (disconnect s)"
proof -
  have "givesUp (disconnect s)" by (simp add: givesUp_def)
  then have "quiet (disconnect s) (run future (disconnect s))"
    by (rule quiet_run) simp
  then show ?thesis
    by (simp add: quiet_def)
qed


lemma pendingReconnect_state:
  "pendingReconnect = \<lparr> ws = Some 0,
       options = \<lparr> o_token = ''secret'', o_filters = None, o_reconnectAttempts = Some 5, o_reconnectDelay = Some (Num 5000) \<rparr>,
       reconnectCount = 1, pingInterval = None, reconnectTimeout = Some 2,
       isConnecting = False, shouldReconnect = True,
       sockets = [\<lparr> ready = CLOSED, url_token = ''secret'', url_filters = None \<rparr>],
       intervals = {}, timeouts = [2 \<mapsto> Num 5000], nextTimer = 3, ctorThrows = False, mathPow = roundedPow,
       emitted = [(''connected'', NoArg), (''disconnected'', CloseEvent 1006),
                  (''reconnecting'', Reconnecting 1 (Some 5) (Num 5000))],
       sent = [], closeCalls = [] \<rparr>"
proof -
  have "pendingReconnect = step (WsClose 0 1006) openChannel"
    by (simp add: pendingReconnect_def openChannel_def)
  then show ?thesis
    by (simp add: openChannel_state onclose_def cleanup_def scheduleReconnect_def setReady_def
        emit_def Let_def roundedPow_first default_delays)
qed

theorem C5_disconnect_witness:
  "reconnectTimeout pendingReconnect = Some 2 \<and> 2 \<in> dom (timeouts pendingReconnect) \<and>
   ws pendingReconnect = Some 0 \<and>
   reconnectTimeout (disconnect pendingReconnect) = None \<and>
   2 \<notin> dom (timeouts (disconnect pendingReconnect)) \<and>
   closeCalls (disconnect pendingReconnect) = [(0, 1000, ''Client disconnect'')] \<and>
   Connect \<notin> set [ReconnectFire 2, WsError 0, PingTick 1 ''12:00:30''] \<and>
   length (sockets (run [ReconnectFire 2, WsError 0, PingTick 1 ''12:00:30''] (disconnect pendingReconnect))) = 1"
proof -
  have p: "pendingReconnect = run [Connect, WsOpen 0, WsClose 0 1006] (WebSocketClient sampleOptions False roundedPow)"
    by (simp add: pendingReconnect_def freshChannel_def)
  have f: "reconnectTimeout pendingReconnect = Some 2" "2 \<in> dom (timeouts pendingReconnect)"
    "ws pendingReconnect = Some 0" "closeCalls pendingReconnect = []"
    "length (sockets pendingReconnect) = 1"
    by (simp_all add: pendingReconnect_state)
  note w = C5_disconnect [of pendingReconnect "[ReconnectFire 2, WsError 0, PingTick 1 ''12:00:30'']"
      "[Connect, WsOpen 0, WsClose 0 1006]" sampleOptions False roundedPow, folded p]
  have n: "Connect \<notin> set [ReconnectFire 2, WsError 0, PingTick 1 ''12:00:30'']" by simp
  have a: "reconnectTimeout (disconnect pendingReconnect) = None" using w by blast
  have b: "2 \<notin> dom (timeouts (disconnect pendingReconnect))" using w f(1) by blast
  have c: "closeCalls (disconnect pendingReconnect) = closeCalls pendingReconnect @ [(0, 1000, ''Client disconnect'')]"
    using w f(3) by blast
  have d: "length (sockets (run [ReconnectFire 2, WsError 0, PingTick 1 ''12:00:30''] (disconnect pendingReconnect))) =
      length (sockets pendingReconnect)"
    using w n by blast
  show ?thesis
    using f(1,2,3) a b n c d f(4,5) by (simp del: run.simps)
qed

theorem C9_flag_is_sticky_witness:
  "\<not> shouldReconnect (run [Connect, WsOpen 1, WsClose 1 1006] (disconnect openChannel)) \<and>
   reconnectTimeout (run [Connect, WsOpen 1, WsClose 1 1006] (disconnect openChannel)) = None \<and>
   emissions ''reconnecting'' (run [Connect, WsOpen 1, WsClose 1 1006] (disconnect openChannel)) = 0 \<and>
   emissions ''connected'' (run [Connect, WsOpen 1, WsClose 1 1006] (disconnect openChannel)) = 2"
proof -
  have r: "run [Connect, WsOpen 1] (disconnect openChannel) = reopened"
    by (simp add: reopened_def openChannel_def)
  have e: "emissions ''reconnecting'' (disconnect openChannel) = 0"
    by (simp add: emissions_def openChannel_state)
  have k: "run [Connect, WsOpen 1, WsClose 1 1006] (disconnect openChannel) = step (WsClose 1 1006) reopened"
    using r by simp
  have c: "emissions ''connected'' (step (WsClose 1 1006) reopened) = 2"
    by (simp add: reopened_state onclose_def cleanup_def setReady_def emit_def emissions_def Let_def)
  note w = C9_flag_is_sticky [of "[Connect, WsOpen 1, WsClose 1 1006]" openChannel]
  have 1: "\<not> shouldReconnect (run [Connect, WsOpen 1, WsClose 1 1006] (disconnect openChannel))"
    using w by blast
  have 2: "reconnectTimeout (run [Connect, WsOpen 1, WsClose 1 1006] (disconnect openChannel)) = None"
    using w by blast
  have 3: "emissions ''reconnecting'' (run [Connect, WsOpen 1, WsClose 1 1006] (disconnect openChannel)) = 0"
    using w e by simp
  have 4: "emissions ''connected'' (run [Connect, WsOpen 1, WsClose 1 1006] (disconnect openChannel)) = 2"
    unfolding k by (rule c)
  show ?thesis
    using 1 2 3 4 by blast
qed

subsection \<open>Consecutive abnormal closures (C3, C4, C10)\<close>

lemma connect_nextTimer: "\<not> ctorThrows s \<Longrightarrow> nextTimer (connect s) = nextTimer s"
  by (simp add: connect_def Let_def)

lemma connect_owns:
  assumes "\<not> ctorThrows s" and "case ws s of Some i \<Rightarrow> i < length (sockets s) | None \<Rightarrow> False"
  shows "case ws (connect s) of Some i \<Rightarrow> i < length (sockets (connect s)) | None \<Rightarrow> False"
  using assms by (auto simp: connect_def Let_def split: option.splits)

lemma step_mathPow [simp]: "mathPow (step e s) = mathPow s"
  by (cases e) simp_all

lemma run_mathPow [simp]: "mathPow (run es s) = mathPow s"
  by (induction es arbitrary: s) (simp_all del: step.simps)

lemma step_numeric_options [simp]:
  "o_reconnectDelay (options (step e s)) = o_reconnectDelay (options s)"
  "o_reconnectAttempts (options (step e s)) = o_reconnectAttempts (options s)"
  by (cases e; simp)+

lemma run_numeric_options [simp]:
  "o_reconnectDelay (options (run es s)) = o_reconnectDelay (options s)"
  "o_reconnectAttempts (options (run es s)) = o_reconnectAttempts (options s)"
  by (induction es arbitrary: s) (simp_all del: step.simps)

lemma capAllows_cong:
  "options s' = options s \<Longrightarrow> capAllows k s' = capAllows k s"
  by (simp add: capAllows_def)

lemma capAllows_less: "capAllows k s \<Longrightarrow> j \<le> k \<Longrightarrow> capAllows j s"
  by (auto simp: capAllows_def split: option.splits)

text \<open>The pending timer elapsing changes nothing that a closure looks at.\<close>

lemma timerElapses_cases:
  "timerElapses s = s \<or>
   (\<exists>h. h \<in> dom (timeouts s) \<and> timerElapses s = connect (s\<lparr>timeouts := (timeouts s)(h := None)\<rparr>))"
  by (auto simp: timerElapses_def split: option.split)

lemma timerElapses_retrying:
  assumes "retrying k s"
  shows "retrying k (timerElapses s)"
    and "options (timerElapses s) = options s"
    and "emitted (timerElapses s) = emitted s"
    and "nextTimer (timerElapses s) = nextTimer s"
    and "dom (timeouts (timerElapses s)) \<subseteq> dom (timeouts s)"
proof -
  have n: "\<not> ctorThrows s" using assms by (simp add: retrying_def)
  have "retrying k (timerElapses s) \<and> options (timerElapses s) = options s \<and>
      emitted (timerElapses s) = emitted s \<and> nextTimer (timerElapses s) = nextTimer s \<and>
      dom (timeouts (timerElapses s)) \<subseteq> dom (timeouts s)"
    using timerElapses_cases [of s]
  proof (elim disjE exE conjE)
    assume "timerElapses s = s"
    then show ?thesis using assms by simp
  next
    fix h
    let ?a = "s\<lparr>timeouts := (timeouts s)(h := None)\<rparr>"
    assume e: "timerElapses s = connect ?a"
    have a: "\<not> ctorThrows ?a" "case ws ?a of Some i \<Rightarrow> i < length (sockets ?a) | None \<Rightarrow> False"
      using assms by (simp_all add: retrying_def split: option.splits)
    have "retrying k (connect ?a)"
      using assms connect_owns [OF a] by (simp add: retrying_def connect_no_throw [OF a(1)])
    moreover have "dom (timeouts (connect ?a)) \<subseteq> dom (timeouts s)"
      by (auto simp: connect_no_throw [OF a(1)])
    ultimately show ?thesis
      unfolding e by (simp add: connect_no_throw [OF a(1)] connect_nextTimer [OF a(1)])
  qed
  then show "retrying k (timerElapses s)"
    and "options (timerElapses s) = options s"
    and "emitted (timerElapses s) = emitted s"
    and "nextTimer (timerElapses s) = nextTimer s"
    and "dom (timeouts (timerElapses s)) \<subseteq> dom (timeouts s)"
    by simp_all
qed

lemma transportCloses_abnormal:
  assumes "retrying k s" and "c \<noteq> 1000"
  shows "\<exists>u. shouldReconnect u \<and> \<not> ctorThrows u \<and> reconnectCount u = k \<and> options u = options s \<and>
           ws u = ws s \<and> length (sockets u) = length (sockets s) \<and> nextTimer u = nextTimer s \<and>
           reconnectTimeout u = None \<and> dom (timeouts u) \<subseteq> dom (timeouts s) \<and>
           emitted u = emitted s @ [(''disconnected'', CloseEvent c)] \<and>
           mathPow u = mathPow s \<and>
           transportCloses c s = scheduleReconnect u"
proof -
  obtain i where i: "ws s = Some i" "i < length (sockets s)"
    using assms(1) by (auto simp: retrying_def split: option.splits)
  let ?u = "emit ''disconnected'' (CloseEvent c) (cleanup ((setReady i CLOSED s)\<lparr>isConnecting := False\<rparr>))"
  have s: "shouldReconnect s" "\<not> ctorThrows s" "reconnectCount s = k"
    using assms(1) by (simp_all add: retrying_def)
  have "transportCloses c s = scheduleReconnect ?u"
    using i s assms(2) by (simp add: transportCloses_def onclose_def Let_def)
  moreover have "nextTimer ?u = nextTimer s"
    by (simp add: emit_def cleanup_def setReady_def Let_def split: option.split)
  moreover have "dom (timeouts ?u) \<subseteq> dom (timeouts s)"
    by (auto split: option.split)
  ultimately show ?thesis
    using i s by (intro exI [of _ ?u]) simp
qed

lemma timerElapses_mathPow [simp]: "mathPow (timerElapses s) = mathPow s"
  by (simp add: timerElapses_def del: step.simps split: option.split)

lemma round_schedules:
  assumes r: "retrying k s" and c: "c \<noteq> 1000" and m: "capAllows (Suc k) s"
  shows "retrying (Suc k) (transportCloses c (timerElapses s))"
    and "options (transportCloses c (timerElapses s)) = options s"
    and "emitted (transportCloses c (timerElapses s)) =
           emitted s @ [(''disconnected'', CloseEvent c),
                        (''reconnecting'', Reconnecting (Suc k) (o_reconnectAttempts (options s))
                            (delayAt s k))]"
    and "reconnectTimeout (transportCloses c (timerElapses s)) = Some (nextTimer s)"
    and "timeouts (transportCloses c (timerElapses s)) (nextTimer s) = Some (delayAt s k)"
    and "mathPow (transportCloses c (timerElapses s)) = mathPow s"
proof -
  note t = timerElapses_retrying [OF r]
  obtain u where u: "shouldReconnect u" "\<not> ctorThrows u" "reconnectCount u = k"
      "options u = options s" "ws u = ws (timerElapses s)"
      "length (sockets u) = length (sockets (timerElapses s))" "nextTimer u = nextTimer s"
      "emitted u = emitted s @ [(''disconnected'', CloseEvent c)]"
      "transportCloses c (timerElapses s) = scheduleReconnect u"
      "mathPow u = mathPow s"
    using transportCloses_abnormal [OF t(1) c] t(2,3,4) by auto
  have o: "case ws u of Some i \<Rightarrow> i < length (sockets u) | None \<Rightarrow> False"
    using t(1) u(5,6) by (simp add: retrying_def split: option.splits)
  have "capAllows (Suc (reconnectCount u)) u"
    using m u(3) capAllows_cong [OF u(4)] by simp
  then have g: "\<not> givesUp u" using u(1) by (simp add: givesUp_iff)
  note e = scheduleReconnect_schedules [OF g]
  show "retrying (Suc k) (transportCloses c (timerElapses s))"
    unfolding u(9) e using u(1,2,3) o by (simp add: retrying_def split: option.splits)
  show "options (transportCloses c (timerElapses s)) = options s"
    unfolding u(9) by (simp add: u(4))
  show "emitted (transportCloses c (timerElapses s)) =
           emitted s @ [(''disconnected'', CloseEvent c),
                        (''reconnecting'', Reconnecting (Suc k) (o_reconnectAttempts (options s))
                            (delayAt s k))]"
    unfolding u(9) e by (simp add: u)
  show "reconnectTimeout (transportCloses c (timerElapses s)) = Some (nextTimer s)"
    unfolding u(9) e by (simp add: u)
  show "timeouts (transportCloses c (timerElapses s)) (nextTimer s) = Some (delayAt s k)"
    unfolding u(9) e by (simp add: u)
  show "mathPow (transportCloses c (timerElapses s)) = mathPow s"
    unfolding u(9) by (simp add: u)
qed

lemma round_exhausted:
  assumes r: "retrying k s" and c: "c \<noteq> 1000" and m: "\<not> capAllows (Suc k) s"
  shows "retrying k (transportCloses c (timerElapses s))"
    and "options (transportCloses c (timerElapses s)) = options s"
    and "emitted (transportCloses c (timerElapses s)) =
           emitted s @ [(''disconnected'', CloseEvent c), (''reconnectFailed'', NoArg)]"
    and "reconnectTimeout (transportCloses c (timerElapses s)) = None"
    and "dom (timeouts (transportCloses c (timerElapses s))) \<subseteq> dom (timeouts s)"
proof -
  note t = timerElapses_retrying [OF r]
  obtain u where u: "shouldReconnect u" "\<not> ctorThrows u" "reconnectCount u = k"
      "options u = options s" "ws u = ws (timerElapses s)"
      "length (sockets u) = length (sockets (timerElapses s))"
      "reconnectTimeout u = None" "dom (timeouts u) \<subseteq> dom (timeouts (timerElapses s))"
      "emitted u = emitted s @ [(''disconnected'', CloseEvent c)]"
      "transportCloses c (timerElapses s) = scheduleReconnect u"
    using transportCloses_abnormal [OF t(1) c] t(2,3,4) by auto
  have o: "case ws u of Some i \<Rightarrow> i < length (sockets u) | None \<Rightarrow> False"
    using t(1) u(5,6) by (simp add: retrying_def split: option.splits)
  have "\<not> capAllows (Suc (reconnectCount u)) u"
    using m u(3) capAllows_cong [OF u(4)] by simp
  then have g: "givesUp u" by (simp add: givesUp_iff)
  note e = scheduleReconnect_gives_up [OF g]
  show "retrying k (transportCloses c (timerElapses s))"
    unfolding u(10) e using u(1,2,3) o by (simp add: retrying_def split: option.splits)
  show "options (transportCloses c (timerElapses s)) = options s"
    unfolding u(10) by (simp add: u(4))
  show "emitted (transportCloses c (timerElapses s)) =
           emitted s @ [(''disconnected'', CloseEvent c), (''reconnectFailed'', NoArg)]"
    unfolding u(10) e by (simp add: u)
  show "reconnectTimeout (transportCloses c (timerElapses s)) = None"
    unfolding u(10) e by (simp add: u)
  show "dom (timeouts (transportCloses c (timerElapses s))) \<subseteq> dom (timeouts s)"
    unfolding u(10) e using u(8) t(5) by simp
qed

lemma closures_retry:
  "retrying k s \<Longrightarrow> \<forall>c \<in> set codes. c \<noteq> 1000 \<Longrightarrow> capAllows (k + length codes) s \<Longrightarrow>
   retrying (k + length codes) (closures codes s) \<and>
   options (closures codes s) = options s \<and>
   emissions ''reconnectFailed'' (closures codes s) = emissions ''reconnectFailed'' s \<and>
   emissions ''reconnecting'' (closures codes s) = emissions ''reconnecting'' s + length codes"
proof (induction codes arbitrary: s k)
  case Nil
  then show ?case by simp
next
  case (Cons c cs)
  let ?s1 = "transportCloses c (timerElapses s)"
  have c: "c \<noteq> 1000" using Cons.prems(2) by simp
  have m: "capAllows (Suc k) s"
    using Cons.prems(3) by (rule capAllows_less) simp
  note r = round_schedules [OF Cons.prems(1) c m]
  have "capAllows (Suc k + length cs) ?s1"
    using Cons.prems(3) capAllows_cong [OF r(2)] by simp
  then have ih: "retrying (Suc k + length cs) (closures cs ?s1) \<and>
     options (closures cs ?s1) = options ?s1 \<and>
     emissions ''reconnectFailed'' (closures cs ?s1) = emissions ''reconnectFailed'' ?s1 \<and>
     emissions ''reconnecting'' (closures cs ?s1) = emissions ''reconnecting'' ?s1 + length cs"
    using Cons.prems(2) by (intro Cons.IH r(1)) simp_all
  have e: "emissions ''reconnectFailed'' ?s1 = emissions ''reconnectFailed'' s"
    "emissions ''reconnecting'' ?s1 = emissions ''reconnecting'' s + 1"
    using emissions_append [OF r(3)] by simp_all
  show ?case using ih by (simp add: r(2) e)
qed

lemma closures_last:
  "retrying k s \<Longrightarrow> \<forall>c \<in> set codes. c \<noteq> 1000 \<Longrightarrow> codes \<noteq> [] \<Longrightarrow>
   capAllows (k + length codes) s \<Longrightarrow>
   last (emitted (closures codes s)) =
     (''reconnecting'', Reconnecting (k + length codes) (o_reconnectAttempts (options s))
        (delayAt s (k + length codes - 1))) \<and>
   (\<exists>h. reconnectTimeout (closures codes s) = Some h \<and>
        timeouts (closures codes s) h = Some (delayAt s (k + length codes - 1)))"
proof (induction codes arbitrary: s k)
  case Nil
  then show ?case by simp
next
  case (Cons c cs)
  let ?s1 = "transportCloses c (timerElapses s)"
  have c: "c \<noteq> 1000" using Cons.prems(2) by simp
  have m: "capAllows (Suc k) s"
    using Cons.prems(4) by (rule capAllows_less) simp
  note r = round_schedules [OF Cons.prems(1) c m]
  show ?case
  proof (cases "cs = []")
    case True
    then show ?thesis using r(3,4,5) by simp
  next
    case False
    have "capAllows (Suc k + length cs) ?s1"
      using Cons.prems(4) capAllows_cong [OF r(2)] by simp
    then have "last (emitted (closures cs ?s1)) =
       (''reconnecting'', Reconnecting (Suc k + length cs) (o_reconnectAttempts (options ?s1))
          (delayAt ?s1 (Suc k + length cs - 1))) \<and>
       (\<exists>h. reconnectTimeout (closures cs ?s1) = Some h \<and>
          timeouts (closures cs ?s1) h = Some (delayAt ?s1 (Suc k + length cs - 1)))"
      using Cons.prems(2) False by (intro Cons.IH r(1)) simp_all
    then show ?thesis by (simp add: r(2) r(6))
  qed
qed

lemma retrying_after_open:
  assumes "shouldReconnect s" and "\<not> ctorThrows s" and "ws s = Some i" and "i < length (sockets s)"
  shows "retrying 0 (step (WsOpen i) s)"
    and "options (step (WsOpen i) s) = options s"
    and "emissions ''reconnectFailed'' (step (WsOpen i) s) = emissions ''reconnectFailed'' s"
    and "emissions ''reconnecting'' (step (WsOpen i) s) = emissions ''reconnecting'' s"
  using assms by (simp_all add: retrying_def emissions_def)

subsection \<open>The backoff delay (C3)\<close>

lemma connecting_state:
  "connecting = \<lparr> ws = Some 0,
       options = \<lparr> o_token = ''secret'', o_filters = None, o_reconnectAttempts = Some 5, o_reconnectDelay = Some (Num 5000) \<rparr>,
       reconnectCount = 0, pingInterval = None, reconnectTimeout = None,
       isConnecting = True, shouldReconnect = True,
       sockets = [\<lparr> ready = CONNECTING, url_token = ''secret'', url_filters = None \<rparr>], intervals = {},
       timeouts = Map.empty, nextTimer = 1, ctorThrows = False, mathPow = roundedPow,
       emitted = [], sent = [], closeCalls = [] \<rparr>"
  by (simp add: connecting_def freshChannel_state connect_def wsIsOpen_def Let_def)

lemma openChannel_connecting: "openChannel = step (WsOpen 0) connecting"
  by (simp add: openChannel_def connecting_def)





lemma retryingI:
  "shouldReconnect s \<Longrightarrow> \<not> ctorThrows s \<Longrightarrow> ws s = Some i \<Longrightarrow> i < length (sockets s) \<Longrightarrow>
   retrying (reconnectCount s) s"
  by (simp add: retrying_def)

text \<open>
  C10. A channel constructed with reconnectAttempts 0 stores the cap 0, and with the cap 0
  the counter never stops the retries: over any number of consecutive abnormal closures
  of a channel that owns a transport and has not been disconnected, no reconnectFailed
  notification is emitted, every closure announces and schedules a reconnect attempt (so
  a reconnect timeout is pending after each), and the counter grows by one per closure.
\<close>

theorem C10_zero_disables_cap:
  "shouldReconnect s \<and> \<not> ctorThrows s \<and> ws s = Some i \<and> i < length (sockets s) \<and>
   o_reconnectAttempts (options s) = Some 0 \<and> (\<forall>c \<in> set codes. c \<noteq> 1000) \<longrightarrow>
     emissions ''reconnectFailed'' (closures codes s) = emissions ''reconnectFailed'' s \<and>
     emissions ''reconnecting'' (closures codes s) = emissions ''reconnecting'' s + length codes \<and>
     reconnectCount (closures codes s) = reconnectCount s + length codes \<and>
     (codes \<noteq> [] \<longrightarrow>
        (\<exists>h. reconnectTimeout (closures codes s) = Some h \<and> h \<in> dom (timeouts (closures codes s)))) \<and>
     o_reconnectAttempts (options (WebSocketClient (opts\<lparr>reconnectAttempts := Given 0\<rparr>) throws pw)) = Some 0"
proof (intro impI, elim conjE)
  assume a: "shouldReconnect s" "\<not> ctorThrows s" "ws s = Some i" "i < length (sockets s)"
    and z: "o_reconnectAttempts (options s) = Some 0" and b: "\<forall>c \<in> set codes. c \<noteq> 1000"
  note r = retryingI [OF a]
  have m: "capAllows (reconnectCount s + length codes) s"
    using z by (simp add: capAllows_def)
  note c = closures_retry [OF r b m]
  have l: "codes \<noteq> [] \<longrightarrow>
      (\<exists>h. reconnectTimeout (closures codes s) = Some h \<and> h \<in> dom (timeouts (closures codes s)))"
  proof
    assume "codes \<noteq> []"
    from closures_last [OF r b this m]
    show "\<exists>h. reconnectTimeout (closures codes s) = Some h \<and> h \<in> dom (timeouts (closures codes s))"
      by blast
  qed
  have k: "reconnectCount (closures codes s) = reconnectCount s + length codes"
    using c by (simp add: retrying_def)
  show "emissions ''reconnectFailed'' (closures codes s) = emissions ''reconnectFailed'' s \<and>
     emissions ''reconnecting'' (closures codes s) = emissions ''reconnecting'' s + length codes \<and>
     reconnectCount (closures codes s) = reconnectCount s + length codes \<and>
     (codes \<noteq> [] \<longrightarrow>
        (\<exists>h. reconnectTimeout (closures codes s) = Some h \<and> h \<in> dom (timeouts (closures codes s)))) \<and>
     o_reconnectAttempts (options (WebSocketClient (opts\<lparr>reconnectAttempts := Given 0\<rparr>) throws pw)) = Some 0"
    using c k l by (simp add: WebSocketClient_def)
qed

lemma uncapped_state:
  "uncapped = \<lparr> ws = Some 0,
       options = \<lparr> o_token = ''secret'', o_filters = None, o_reconnectAttempts = Some 0, o_reconnectDelay = Some (Num 5000) \<rparr>,
       reconnectCount = 0, pingInterval = Some 1, reconnectTimeout = None,
       isConnecting = False, shouldReconnect = True,
       sockets = [\<lparr> ready = OPEN, url_token = ''secret'', url_filters = None \<rparr>], intervals = {1},
       timeouts = Map.empty, nextTimer = 2, ctorThrows = False, mathPow = roundedPow,
       emitted = [(''connected'', NoArg)], sent = [], closeCalls = [] \<rparr>"
  by (simp add: uncapped_def WebSocketClient_def sampleOptions_def connect_def wsIsOpen_def onopen_def
      setReady_def emit_def startPingInterval_def Let_def)

theorem C10_zero_disables_cap_witness:
  "shouldReconnect uncapped \<and> \<not> ctorThrows uncapped \<and> ws uncapped = Some 0 \<and>
   0 < length (sockets uncapped) \<and> o_reconnectAttempts (options uncapped) = Some 0 \<and>
   emissions ''reconnectFailed'' (closures [1006, 1006, 1006, 1006, 1006, 1006, 1006] uncapped) = 0 \<and>
   emissions ''reconnecting'' (closures [1006, 1006, 1006, 1006, 1006, 1006, 1006] uncapped) = 7 \<and>
   reconnectCount (closures [1006, 1006, 1006, 1006, 1006, 1006, 1006] uncapped) = 7 \<and>
   reconnectTimeout (closures [1006, 1006, 1006, 1006, 1006, 1006, 1006] uncapped) \<noteq> None"
proof -
  have f: "shouldReconnect uncapped" "\<not> ctorThrows uncapped" "ws uncapped = Some 0"
    "length (sockets uncapped) = 1" "o_reconnectAttempts (options uncapped) = Some 0"
    "reconnectCount uncapped = 0" "emissions ''reconnectFailed'' uncapped = 0"
    "emissions ''reconnecting'' uncapped = 0"
    by (simp_all add: uncapped_state emissions_def)
  show ?thesis
    using C10_zero_disables_cap [of uncapped 0 "[1006, 1006, 1006, 1006, 1006, 1006, 1006]" sampleOptions False roundedPow]
    by (auto simp: f simp del: closures.simps)
qed

lemma closures_append: "closures (xs @ ys) s = closures ys (closures xs s)"
  by (induction xs arbitrary: s) simp_all

text \<open>
  The claim as written fails by one: with the default cap of 5, after exactly five
  consecutive abnormal closures since the open no reconnectFailed has been emitted; the
  fifth closure has announced attempt 5 of 5 and its reconnect timeout is pending.
\<close>

theorem C4_fifth_closure_still_retries:
  "o_reconnectAttempts (options openChannel) = Some 5 \<and>
   emissions ''reconnectFailed'' (closures [1006, 1006, 1006, 1006, 1006] openChannel) = 0 \<and>
   last (emitted (closures [1006, 1006, 1006, 1006, 1006] openChannel)) =
     (''reconnecting'', Reconnecting 5 (Some 5) (Num (50625 / 2))) \<and>
   reconnectTimeout (closures [1006, 1006, 1006, 1006, 1006] openChannel) \<noteq> None"
proof -
  have f: "o_reconnectAttempts (options openChannel) = Some 5"
    "emissions ''reconnectFailed'' openChannel = 0"
    by (simp_all add: openChannel_state emissions_def)
  have d4: "delayAt openChannel 4 = Num (50625 / 2)"
    by (simp add: openChannel_state roundedPow_first default_delays)
  have "0 + length [1006, 1006, 1006, 1006, 1006 :: int] - 1 = 4" by simp
  then have d: "delayAt openChannel (0 + length [1006, 1006, 1006, 1006, 1006 :: int] - 1) = Num (50625 / 2)"
    using d4 by (simp only:)
  have r: "retrying 0 openChannel"
    by (simp add: retrying_def openChannel_state)
  have b: "\<forall>c \<in> set [1006, 1006, 1006, 1006, 1006 :: int]. c \<noteq> 1000" by simp
  have m: "capAllows (0 + length [1006, 1006, 1006, 1006, 1006 :: int]) openChannel"
    by (simp add: capAllows_def f)
  have n: "[1006, 1006, 1006, 1006, 1006 :: int] \<noteq> []" by simp
  from closures_retry [OF r b m] closures_last [OF r b n m, unfolded d]
  show ?thesis
    by (auto simp: f simp del: closures.simps)
qed

text \<open>
  C4, as amended. Let the cap be positive. Each of the first cap consecutive abnormal
  closures since the last successful open schedules a reconnect attempt, and none emits
  reconnectFailed. The next abnormal closure (number cap + 1) emits reconnectFailed and
  schedules nothing. From then on, over any turns whatsoever in which no transport opens
  (explicit connect calls and further closures included), no reconnect timeout is held or
  added and no reconnecting notification is emitted. Every successful open resets the
  counter to zero.
\<close>

theorem C4_retry_budget:
  "shouldReconnect s \<and> \<not> ctorThrows s \<and> ws s = Some i \<and> i < length (sockets s) \<and>
   codes \<noteq> [] \<and> (\<forall>c \<in> set codes. c \<noteq> 1000) \<and> code \<noteq> 1000 \<and>
   o_reconnectAttempts (options s) = Some (int (length codes)) \<longrightarrow>
     emissions ''reconnectFailed'' (closures codes (step (WsOpen i) s)) = emissions ''reconnectFailed'' s \<and>
     emissions ''reconnecting'' (closures codes (step (WsOpen i) s)) =
       emissions ''reconnecting'' s + length codes \<and>
     (\<exists>h. reconnectTimeout (closures codes (step (WsOpen i) s)) = Some h \<and>
          h \<in> dom (timeouts (closures codes (step (WsOpen i) s)))) \<and>
     last (emitted (closures (codes @ [code]) (step (WsOpen i) s))) = (''reconnectFailed'', NoArg) \<and>
     emissions ''reconnectFailed'' (closures (codes @ [code]) (step (WsOpen i) s)) =
       emissions ''reconnectFailed'' s + 1 \<and>
     emissions ''reconnecting'' (closures (codes @ [code]) (step (WsOpen i) s)) =
       emissions ''reconnecting'' s + length codes \<and>
     reconnectTimeout (closures (codes @ [code]) (step (WsOpen i) s)) = None \<and>
     (\<forall>evs. (\<forall>j. WsOpen j \<notin> set evs) \<longrightarrow>
        reconnectTimeout (run evs (closures (codes @ [code]) (step (WsOpen i) s))) = None \<and>
        dom (timeouts (run evs (closures (codes @ [code]) (step (WsOpen i) s)))) \<subseteq>
          dom (timeouts (closures (codes @ [code]) (step (WsOpen i) s))) \<and>
        emissions ''reconnecting'' (run evs (closures (codes @ [code]) (step (WsOpen i) s))) =
          emissions ''reconnecting'' s + length codes) \<and>
     reconnectCount (step (WsOpen i) s) = 0"
proof (intro impI, elim conjE)
  assume a: "shouldReconnect s" "\<not> ctorThrows s" "ws s = Some i" "i < length (sockets s)"
    and b: "codes \<noteq> []" "\<forall>c \<in> set codes. c \<noteq> 1000" and c: "code \<noteq> 1000"
    and m: "o_reconnectAttempts (options s) = Some (int (length codes))"
  let ?o = "step (WsOpen i) s"
  let ?a = "closures codes ?o"
  let ?b = "closures (codes @ [code]) ?o"
  note o = retrying_after_open [OF a]
  have m': "capAllows (0 + length codes) ?o"
    using m by (simp add: capAllows_def o(2) del: step.simps)
  note r = closures_retry [OF o(1) b(2) m']
  have ra: "retrying (length codes) ?a" and oa: "options ?a = options s"
    and fa: "emissions ''reconnectFailed'' ?a = emissions ''reconnectFailed'' s"
    and ga: "emissions ''reconnecting'' ?a = emissions ''reconnecting'' s + length codes"
    using r o(2,3,4) by (simp_all del: step.simps)
  have pa: "\<exists>h. reconnectTimeout ?a = Some h \<and> h \<in> dom (timeouts ?a)"
    using closures_last [OF o(1) b(2) b(1) m'] by blast
  have z: "\<not> capAllows (Suc (length codes)) ?a"
    using m b(1) by (simp add: capAllows_def oa del: step.simps)
  have e: "?b = transportCloses code (timerElapses ?a)"
    by (simp add: closures_append del: step.simps)
  note x = round_exhausted [OF ra c z, folded e]
  have rb: "reconnectCount ?b = length codes" "shouldReconnect ?b"
    using x(1) by (simp_all add: retrying_def del: step.simps)
  have lb: "last (emitted ?b) = (''reconnectFailed'', NoArg)"
    by (simp add: x(3) del: step.simps)
  have fb: "emissions ''reconnectFailed'' ?b = emissions ''reconnectFailed'' s + 1"
    and gb: "emissions ''reconnecting'' ?b = emissions ''reconnecting'' s + length codes"
    using emissions_append [OF x(3)] fa ga by (simp_all del: step.simps)
  have "\<not> capAllows (Suc (reconnectCount ?b)) ?b"
    using z capAllows_cong [of ?b ?a "Suc (length codes)"] x(2) oa rb(1) by (simp del: step.simps)
  then have g: "givesUp ?b"
    by (simp add: givesUp_iff del: step.simps)
  have q: "\<forall>evs. (\<forall>j. WsOpen j \<notin> set evs) \<longrightarrow>
        reconnectTimeout (run evs ?b) = None \<and>
        dom (timeouts (run evs ?b)) \<subseteq> dom (timeouts ?b) \<and>
        emissions ''reconnecting'' (run evs ?b) = emissions ''reconnecting'' s + length codes"
  proof (intro allI impI)
    fix evs
    assume "\<forall>j. WsOpen j \<notin> set evs"
    then have "quiet ?b (run evs ?b)"
      using g by (intro quiet_run) (simp_all del: step.simps)
    then show "reconnectTimeout (run evs ?b) = None \<and>
        dom (timeouts (run evs ?b)) \<subseteq> dom (timeouts ?b) \<and>
        emissions ''reconnecting'' (run evs ?b) = emissions ''reconnecting'' s + length codes"
      using x(4) gb by (simp add: quiet_def del: step.simps)
  qed
  have k: "reconnectCount ?o = 0"
    using o(1) by (simp add: retrying_def del: step.simps)
  show "emissions ''reconnectFailed'' ?a = emissions ''reconnectFailed'' s \<and>
     emissions ''reconnecting'' ?a = emissions ''reconnecting'' s + length codes \<and>
     (\<exists>h. reconnectTimeout ?a = Some h \<and> h \<in> dom (timeouts ?a)) \<and>
     last (emitted ?b) = (''reconnectFailed'', NoArg) \<and>
     emissions ''reconnectFailed'' ?b = emissions ''reconnectFailed'' s + 1 \<and>
     emissions ''reconnecting'' ?b = emissions ''reconnecting'' s + length codes \<and>
     reconnectTimeout ?b = None \<and>
     (\<forall>evs. (\<forall>j. WsOpen j \<notin> set evs) \<longrightarrow>
        reconnectTimeout (run evs ?b) = None \<and>
        dom (timeouts (run evs ?b)) \<subseteq> dom (timeouts ?b) \<and>
        emissions ''reconnecting'' (run evs ?b) = emissions ''reconnecting'' s + length codes) \<and>
     reconnectCount ?o = 0"
    using fa ga pa lb fb gb x(4) q k by blast
qed


theorem C4_retry_budget_witness:
  "shouldReconnect connecting \<and> \<not> ctorThrows connecting \<and> ws connecting = Some 0 \<and>
   0 < length (sockets connecting) \<and> o_reconnectAttempts (options connecting) = Some 5 \<and>
   emissions ''reconnectFailed'' (closures [1006, 1006, 1006, 1006, 1006] openChannel) = 0 \<and>
   emissions ''reconnecting'' (closures [1006, 1006, 1006, 1006, 1006] openChannel) = 5 \<and>
   reconnectTimeout (closures [1006, 1006, 1006, 1006, 1006] openChannel) \<noteq> None \<and>
   last (emitted (closures [1006, 1006, 1006, 1006, 1006, 1006] openChannel)) = (''reconnectFailed'', NoArg) \<and>
   emissions ''reconnectFailed'' (closures [1006, 1006, 1006, 1006, 1006, 1006] openChannel) = 1 \<and>
   reconnectTimeout (closures [1006, 1006, 1006, 1006, 1006, 1006] openChannel) = None \<and>
   reconnectTimeout (run [Connect, WsClose 5 1006]
     (closures [1006, 1006, 1006, 1006, 1006, 1006] openChannel)) = None \<and>
   emissions ''reconnecting'' (run [Connect, WsClose 5 1006]
     (closures [1006, 1006, 1006, 1006, 1006, 1006] openChannel)) = 5"
proof -
  have f: "shouldReconnect connecting" "\<not> ctorThrows connecting" "ws connecting = Some 0"
    "length (sockets connecting) = 1" "o_reconnectAttempts (options connecting) = Some 5"
    "emissions ''reconnectFailed'' connecting = 0" "emissions ''reconnecting'' connecting = 0"
    by (simp_all add: connecting_state emissions_def)
  have pre: "shouldReconnect connecting \<and> \<not> ctorThrows connecting \<and> ws connecting = Some 0 \<and>
     0 < length (sockets connecting) \<and> [1006, 1006, 1006, 1006, 1006 :: int] \<noteq> [] \<and>
     (\<forall>c \<in> set [1006, 1006, 1006, 1006, 1006 :: int]. c \<noteq> 1000) \<and> (1006 :: int) \<noteq> 1000 \<and>
     o_reconnectAttempts (options connecting) = Some (int (length [1006, 1006, 1006, 1006, 1006 :: int]))"
    by (simp add: f)
  have l: "[1006, 1006, 1006, 1006, 1006] @ [1006 :: int] = [1006, 1006, 1006, 1006, 1006, 1006]"
    by simp
  note w = C4_retry_budget [of connecting 0 "[1006, 1006, 1006, 1006, 1006]" 1006, THEN mp, OF pre,
      folded openChannel_connecting, unfolded l]
  have n: "\<forall>j. WsOpen j \<notin> set [Connect, WsClose 5 1006]" by simp
  have q: "reconnectTimeout (run [Connect, WsClose 5 1006]
       (closures [1006, 1006, 1006, 1006, 1006, 1006] openChannel)) = None \<and>
     emissions ''reconnecting'' (run [Connect, WsClose 5 1006]
       (closures [1006, 1006, 1006, 1006, 1006, 1006] openChannel)) =
       emissions ''reconnecting'' connecting + length [1006, 1006, 1006, 1006, 1006 :: int]"
    using w n by blast
  have 1: "emissions ''reconnectFailed'' (closures [1006, 1006, 1006, 1006, 1006] openChannel) =
      emissions ''reconnectFailed'' connecting"
    and 2: "emissions ''reconnecting'' (closures [1006, 1006, 1006, 1006, 1006] openChannel) =
      emissions ''reconnecting'' connecting + length [1006, 1006, 1006, 1006, 1006 :: int]"
    and 3: "reconnectTimeout (closures [1006, 1006, 1006, 1006, 1006] openChannel) \<noteq> None"
    and 4: "last (emitted (closures [1006, 1006, 1006, 1006, 1006, 1006] openChannel)) = (''reconnectFailed'', NoArg)"
    and 5: "emissions ''reconnectFailed'' (closures [1006, 1006, 1006, 1006, 1006, 1006] openChannel) =
      emissions ''reconnectFailed'' connecting + 1"
    and 6: "reconnectTimeout (closures [1006, 1006, 1006, 1006, 1006, 1006] openChannel) = None"
    using w by auto
  show ?thesis
    using f(1,2,3) 3 4 6 q by (simp add: f 1 2 5 del: closures.simps run.simps)
qed

end
